theory Spec2Isabelle
  imports Main "HOL-Library.Sublist" "HOL-Library.AList"
begin

section \<open>Python values, strings and dictionaries\<close>

text \<open>
  The values that reach \<^verbatim>\<open>converter.py\<close> through \<^verbatim>\<open>data\<close>, \<^verbatim>\<open>settings\<close> and
  \<^verbatim>\<open>lang_code\<close>.  \<open>PyObj t r\<close> stands for any other object: \<open>t\<close> is what
  \<^verbatim>\<open>bool(obj)\<close> gives and \<open>r\<close> what \<^verbatim>\<open>str(obj)\<close> gives, the only two things the
  module ever asks of such a value.
\<close>

datatype pyval =
    PyNone
  | PyBool bool
  | PyInt int
  | PyStr string
  | PyObj bool string

datatype error =
    FileDoesNotExist
  | IdDoesNotExist
  | OSError string
  | FileNotFoundError
  | FileExistsError
  | NotADirectoryError
  | IsADirectoryError
  | BadZipFile
  | IndexError
  | AttributeError
  | OtherError string

type_synonym pydict = "string \<rightharpoonup> pyval"

fun truthy :: "pyval \<Rightarrow> bool" where
  "truthy PyNone = False"
| "truthy (PyBool b) = b"
| "truthy (PyInt n) = (n \<noteq> 0)"
| "truthy (PyStr s) = (s \<noteq> [])"
| "truthy (PyObj t r) = t"

fun decimal :: "nat \<Rightarrow> string" where
  "decimal n =
     (if n < 10 then [''0123456789'' ! n]
      else decimal (n div 10) @ [''0123456789'' ! (n mod 10)])"

text \<open>\<^verbatim>\<open>str(v)\<close>, as \<^verbatim>\<open>"{}".format(v)\<close> renders a value.\<close>

fun py_str :: "pyval \<Rightarrow> string" where
  "py_str PyNone = ''None''"
| "py_str (PyBool b) = (if b then ''True'' else ''False'')"
| "py_str (PyInt n) = (if n < 0 then CHR ''-'' # decimal (nat (- n)) else decimal (nat n))"
| "py_str (PyStr s) = s"
| "py_str (PyObj t r) = r"

text \<open>\<^verbatim>\<open>d.get(k)\<close> and \<^verbatim>\<open>d.get(k, default)\<close>.\<close>

definition dict_get :: "pydict \<Rightarrow> string \<Rightarrow> pyval" where
  "dict_get d k = (case d k of None \<Rightarrow> PyNone | Some v \<Rightarrow> v)"

definition dict_get_default :: "pydict \<Rightarrow> string \<Rightarrow> pyval \<Rightarrow> pyval" where
  "dict_get_default d k dflt = (case d k of None \<Rightarrow> dflt | Some v \<Rightarrow> v)"

text \<open>
  The attributes of a \<^verbatim>\<open>dict\<close> object are the methods of its class; its keys are not
  attributes.  \<^verbatim>\<open>getattr(d, name, default)\<close> therefore never looks at the
  dictionary's contents.
\<close>

definition dict_attribute_names :: "string list" where
  "dict_attribute_names =
     [''clear'', ''copy'', ''fromkeys'', ''get'', ''items'', ''keys'', ''pop'',
      ''popitem'', ''setdefault'', ''update'', ''values'']"

definition getattr_dict :: "pydict \<Rightarrow> string \<Rightarrow> pyval \<Rightarrow> pyval" where
  "getattr_dict d name dflt =
     (if name \<in> set dict_attribute_names
      then PyObj True (''<built-in method '' @ name @ '' of dict object>'')
      else dflt)"

text \<open>\<^verbatim>\<open>s.split(c)\<close> for a one-character separator: never an empty list.\<close>

fun split_on :: "char \<Rightarrow> string \<Rightarrow> string list" where
  "split_on c [] = [[]]"
| "split_on c (x # xs) =
     (if x = c then [] # split_on c xs
      else (case split_on c xs of [] \<Rightarrow> [[x]] | y # ys \<Rightarrow> (x # y) # ys))"

text \<open>\<^verbatim>\<open>v.split(c)\<close> on a value: only a string has the method.\<close>

fun py_split :: "pyval \<Rightarrow> char \<Rightarrow> error + string list" where
  "py_split (PyStr s) c = Inr (split_on c s)"
| "py_split v c = Inl AttributeError"

text \<open>\<^verbatim>\<open>s.replace(old, new, 1)\<close>: the first occurrence only; an empty \<open>old\<close> matches
  at position 0.\<close>

fun replace_first :: "string \<Rightarrow> string \<Rightarrow> string \<Rightarrow> string" where
  "replace_first old new [] = (if old = [] then new else [])"
| "replace_first old new (x # xs) =
     (if prefix old (x # xs) then new @ drop (length old) (x # xs)
      else x # replace_first old new xs)"

section \<open>The file system\<close>

text \<open>
  A file system without links: every entry is keyed by its canonical path, the list of
  names from the root.  The root itself is always a directory and has no entry.  A file
  holds raw bytes or a zip archive, the latter kept as its list of members (name and
  data) instead of its byte encoding; \<open>Unfinished\<close> is an archive still being written,
  the members so far without the closing directory, which no reader accepts as an archive.  Relative paths start at \<open>cwd\<close>.  An operation
  fails only for what the entries give away (a path that is missing, or a file where a
  directory is needed, or the reverse), never for want of permission or space.
\<close>

type_synonym cpath = "string list"

datatype content =
    Raw string
  | Archive "(string \<times> content) list"
  | Unfinished "(string \<times> content) list"

datatype node = Dir | File content

record filesystem =
  entries :: "(cpath \<times> node) list"
  cwd :: cpath

datatype outcome = Raised error filesystem | Done filesystem

definition node_at :: "filesystem \<Rightarrow> cpath \<Rightarrow> node option" where
  "node_at fs p = (if p = [] then Some Dir else map_of (entries fs) p)"

definition is_dir_at :: "filesystem \<Rightarrow> cpath \<Rightarrow> bool" where
  "is_dir_at fs p = (node_at fs p = Some Dir)"

text \<open>
  Path resolution, one component at a time: a component is looked up in a directory
  only (\<^verbatim>\<open>ENOTDIR\<close> otherwise), empty components and \<^verbatim>\<open>.\<close> stay, \<^verbatim>\<open>..\<close> goes
  up (the root is its own parent), a name must exist (\<^verbatim>\<open>ENOENT\<close> otherwise).
\<close>

fun resolve_from :: "filesystem \<Rightarrow> cpath \<Rightarrow> string list \<Rightarrow> error + cpath" where
  "resolve_from fs cur [] =
     (if node_at fs cur = None then Inl FileNotFoundError else Inr cur)"
| "resolve_from fs cur (c # cs) =
     (if node_at fs cur = None then Inl FileNotFoundError
      else if \<not> is_dir_at fs cur then Inl NotADirectoryError
      else if c = [] \<or> c = ''.'' then resolve_from fs cur cs
      else if c = ''..'' then resolve_from fs (butlast cur) cs
      else resolve_from fs (cur @ [c]) cs)"

definition start_of :: "filesystem \<Rightarrow> string \<Rightarrow> cpath" where
  "start_of fs p = (if prefix ''/'' p then [] else cwd fs)"

definition resolve :: "filesystem \<Rightarrow> string \<Rightarrow> error + cpath" where
  "resolve fs p =
     (if p = [] then Inl FileNotFoundError
      else resolve_from fs (start_of fs p) (split_on CHR ''/'' p))"

text \<open>\<^verbatim>\<open>os.path.exists\<close> and \<^verbatim>\<open>os.path.isdir\<close>: any error of the lookup is False.\<close>

definition os_path_exists :: "filesystem \<Rightarrow> string \<Rightarrow> bool" where
  "os_path_exists fs p = (case resolve fs p of Inl e \<Rightarrow> False | Inr c \<Rightarrow> True)"

definition os_path_isdir :: "filesystem \<Rightarrow> string \<Rightarrow> bool" where
  "os_path_isdir fs p = (case resolve fs p of Inl e \<Rightarrow> False | Inr c \<Rightarrow> is_dir_at fs c)"

section \<open>Path functions of \<^verbatim>\<open>os.path\<close> (POSIX)\<close>

definition rstrip_sep :: "string \<Rightarrow> string" where
  "rstrip_sep h = rev (dropWhile (\<lambda>x. x = CHR ''/'') (rev h))"

text \<open>\<^verbatim>\<open>os.path.split\<close>: the tail is what follows the last slash; trailing slashes are
  stripped from the head unless it consists of slashes only.\<close>

definition os_path_split :: "string \<Rightarrow> string \<times> string" where
  "os_path_split p =
     (let tail = rev (takeWhile (\<lambda>x. x \<noteq> CHR ''/'') (rev p));
          head = take (length p - length tail) p
      in (if head \<noteq> [] \<and> filter (\<lambda>x. x \<noteq> CHR ''/'') head \<noteq> [] then rstrip_sep head else head,
          tail))"

definition os_path_dirname :: "string \<Rightarrow> string" where
  "os_path_dirname p = fst (os_path_split p)"

definition os_path_join :: "string \<Rightarrow> string \<Rightarrow> string" where
  "os_path_join a b =
     (if prefix ''/'' b then b
      else if a = [] \<or> last a = CHR ''/'' then a @ b
      else a @ ''/'' @ b)"

text \<open>\<^verbatim>\<open>os.path.normcase\<close> is the identity on POSIX.\<close>

definition os_path_normcase :: "string \<Rightarrow> string" where
  "os_path_normcase p = p"

fun join_sep :: "string list \<Rightarrow> string" where
  "join_sep [] = []"
| "join_sep [x] = x"
| "join_sep (x # y # ys) = x @ CHR ''/'' # join_sep (y # ys)"

text \<open>The loop of \<^verbatim>\<open>os.path.normpath\<close> over the components; \<open>acc\<close> is
  \<^verbatim>\<open>new_comps\<close>, \<open>rooted\<close> says whether the path starts with a slash.\<close>

fun norm_comps :: "bool \<Rightarrow> string list \<Rightarrow> string list \<Rightarrow> string list" where
  "norm_comps rooted acc [] = acc"
| "norm_comps rooted acc (c # cs) =
     (if c = [] \<or> c = ''.'' then norm_comps rooted acc cs
      else if c \<noteq> ''..'' \<or> (\<not> rooted \<and> acc = []) \<or> (acc \<noteq> [] \<and> last acc = ''..'')
        then norm_comps rooted (acc @ [c]) cs
      else if acc \<noteq> [] then norm_comps rooted (butlast acc) cs
      else norm_comps rooted acc cs)"

definition os_path_normpath :: "string \<Rightarrow> string" where
  "os_path_normpath p =
     (if p = [] then ''.''
      else
        let initial_slashes =
              (if prefix ''/'' p then (if prefix ''//'' p \<and> \<not> prefix ''///'' p then 2 else 1)
               else (0::nat));
            comps = norm_comps (initial_slashes \<noteq> 0) [] (split_on CHR ''/'' p);
            path = replicate initial_slashes CHR ''/'' @ join_sep comps
        in if path = [] then ''.'' else path)"

section \<open>File operations\<close>

text \<open>\<^verbatim>\<open>open(p, 'rb').read()\<close>.\<close>

definition read_file :: "filesystem \<Rightarrow> string \<Rightarrow> error + content" where
  "read_file fs p =
     (case resolve fs p of
        Inl e \<Rightarrow> Inl e
      | Inr c \<Rightarrow> (case node_at fs c of Some (File d) \<Rightarrow> Inr d | _ \<Rightarrow> Inl IsADirectoryError))"

text \<open>\<^verbatim>\<open>open(p, 'wb')\<close>, a write of \<open>d\<close> and the close: an existing file is
  overwritten, a missing one is created in its parent directory.\<close>

definition write_file :: "filesystem \<Rightarrow> string \<Rightarrow> content \<Rightarrow> outcome" where
  "write_file fs p d =
     (case resolve fs p of
        Inr c \<Rightarrow>
          if is_dir_at fs c then Raised IsADirectoryError fs
          else Done (fs\<lparr>entries := AList.update c (File d) (entries fs)\<rparr>)
      | Inl e \<Rightarrow>
          if p = [] then Raised FileNotFoundError fs
          else
            (case resolve_from fs (start_of fs p) (butlast (split_on CHR ''/'' p)) of
               Inl e' \<Rightarrow> Raised e' fs
             | Inr dir \<Rightarrow>
                 if \<not> is_dir_at fs dir then Raised NotADirectoryError fs
                 else if last (split_on CHR ''/'' p) \<in> {[], ''.'', ''..''}
                   then Raised IsADirectoryError fs
                 else Done (fs\<lparr>entries :=
                        entries fs @ [(dir @ [last (split_on CHR ''/'' p)], File d)]\<rparr>)))"

text \<open>\<^verbatim>\<open>os.mkdir\<close>: nothing may exist under the name, its parent must be a directory;
  trailing slashes are allowed.\<close>

definition mkdir_comps :: "string \<Rightarrow> string list" where
  "mkdir_comps p = rev (dropWhile (\<lambda>c. c = []) (rev (split_on CHR ''/'' p)))"

definition mkdir :: "filesystem \<Rightarrow> string \<Rightarrow> outcome" where
  "mkdir fs p =
     (case resolve fs p of
        Inr c \<Rightarrow> Raised FileExistsError fs
      | Inl e \<Rightarrow>
          if mkdir_comps p = [] then Raised FileNotFoundError fs
          else
            (case resolve_from fs (start_of fs p) (butlast (mkdir_comps p)) of
               Inl e' \<Rightarrow> Raised e' fs
             | Inr dir \<Rightarrow>
                 if \<not> is_dir_at fs dir then Raised NotADirectoryError fs
                 else if last (mkdir_comps p) \<in> {''.'', ''..''} then Raised FileExistsError fs
                 else if node_at fs (dir @ [last (mkdir_comps p)]) \<noteq> None
                   then Raised FileExistsError fs
                 else Done (fs\<lparr>entries := entries fs @ [(dir @ [last (mkdir_comps p)], Dir)]\<rparr>)))"

text \<open>
  \<^verbatim>\<open>os.makedirs(name)\<close>: split off the last component (twice when \<open>name\<close> ends in a
  slash); when the head is missing, create it first, forgiving \<^verbatim>\<open>FileExistsError\<close>,
  and stop there when the tail is \<^verbatim>\<open>.\<close>; then \<^verbatim>\<open>mkdir(name)\<close>.
\<close>

definition makedirs_parts :: "string \<Rightarrow> string \<times> string" where
  "makedirs_parts name =
     (if snd (os_path_split name) = [] then os_path_split (fst (os_path_split name))
      else os_path_split name)"

lemma length_rstrip_sep: "length (rstrip_sep h) \<le> length h"
  unfolding rstrip_sep_def using length_dropWhile_le [of _ "rev h"] by simp

lemma os_path_split_fst_le:
  "length (fst (os_path_split p)) \<le> length p - length (snd (os_path_split p))"
proof -
  define n where "n = length (takeWhile (\<lambda>x. x \<noteq> CHR ''/'') (rev p))"
  have "length (rstrip_sep (take (length p - n) p)) \<le> length (take (length p - n) p)"
    by (rule length_rstrip_sep)
  then have "length (rstrip_sep (take (length p - n) p)) \<le> length p - n"
    by simp
  then show ?thesis
    by (simp add: os_path_split_def Let_def n_def)
qed

lemma os_path_split_shorter:
  "snd (os_path_split p) \<noteq> [] \<Longrightarrow> length (fst (os_path_split p)) < length p"
proof -
  assume a: "snd (os_path_split p) \<noteq> []"
  have "length (snd (os_path_split p)) \<le> length p"
    using length_takeWhile_le [of _ "rev p"] by (simp add: os_path_split_def Let_def)
  moreover have "0 < length (snd (os_path_split p))" using a by simp
  ultimately show ?thesis using os_path_split_fst_le [of p] by linarith
qed

lemma os_path_split_not_longer: "length (fst (os_path_split p)) \<le> length p"
  using os_path_split_fst_le [of p] by linarith

lemma makedirs_parts_shorter:
  "snd (makedirs_parts name) \<noteq> [] \<Longrightarrow> length (fst (makedirs_parts name)) < length name"
  using os_path_split_shorter [of name] os_path_split_shorter [of "fst (os_path_split name)"]
    os_path_split_not_longer [of name]
  by (auto simp: makedirs_parts_def split: if_splits)

function makedirs :: "filesystem \<Rightarrow> string \<Rightarrow> outcome" where
  "makedirs fs name =
     (if fst (makedirs_parts name) \<noteq> [] \<and> snd (makedirs_parts name) \<noteq> []
         \<and> \<not> os_path_exists fs (fst (makedirs_parts name))
      then
        (case makedirs fs (fst (makedirs_parts name)) of
           Done fs' \<Rightarrow> if snd (makedirs_parts name) = ''.'' then Done fs' else mkdir fs' name
         | Raised e fs' \<Rightarrow>
             if e = FileExistsError
             then (if snd (makedirs_parts name) = ''.'' then Done fs' else mkdir fs' name)
             else Raised e fs')
      else mkdir fs name)"
  by pat_completeness auto
termination
  by (relation "measure (\<lambda>(fs, name). length name)") (auto simp: makedirs_parts_shorter)

declare makedirs.simps [simp del]

text \<open>
  \<^verbatim>\<open>shutil.rmtree\<close>: everything below the directory goes, then \<^verbatim>\<open>os.rmdir(p)\<close>
  removes the directory itself.  By then the path may lead nowhere (it went through a
  directory that is gone: \<^verbatim>\<open>FileNotFoundError\<close>), and the system refuses the root and
  a path whose last component is \<^verbatim>\<open>.\<close> or \<^verbatim>\<open>..\<close>.
\<close>

definition rmtree :: "filesystem \<Rightarrow> string \<Rightarrow> outcome" where
  "rmtree fs p =
     (case resolve fs p of
        Inl e \<Rightarrow> Raised e fs
      | Inr c \<Rightarrow>
          if \<not> is_dir_at fs c then Raised NotADirectoryError fs
          else
            let emptied = fs\<lparr>entries := filter (\<lambda>kn. \<not> strict_prefix c (fst kn)) (entries fs)\<rparr>
            in (case resolve emptied p of
                  Inl e \<Rightarrow> Raised e emptied
                | Inr c' \<Rightarrow>
                    if c' = [] \<or> last (mkdir_comps p) \<in> {''.'', ''..''}
                    then Raised (OSError ''rmdir'') emptied
                    else Done (emptied\<lparr>entries :=
                           filter (\<lambda>kn. fst kn \<noteq> c') (entries emptied)\<rparr>)))"

text \<open>\<^verbatim>\<open>os.remove\<close>: unlinks a file, never a directory.\<close>

definition os_remove :: "filesystem \<Rightarrow> string \<Rightarrow> outcome" where
  "os_remove fs p =
     (case resolve fs p of
        Inl e \<Rightarrow> Raised e fs
      | Inr c \<Rightarrow>
          if is_dir_at fs c then Raised IsADirectoryError fs
          else Done (fs\<lparr>entries := filter (\<lambda>kn. fst kn \<noteq> c) (entries fs)\<rparr>))"

text \<open>
  \<^verbatim>\<open>os.walk(top)\<close>, top-down: each directory with the names of its subdirectories and
  of its other entries, then its subdirectories in turn.  \<open>d\<close> is the canonical path of
  \<open>top\<close>.  A \<open>top\<close> that cannot be listed yields nothing.
\<close>

definition child_names :: "filesystem \<Rightarrow> cpath \<Rightarrow> string list" where
  "child_names fs d =
     map (\<lambda>kn. last (fst kn))
       (filter (\<lambda>kn. fst kn \<noteq> [] \<and> butlast (fst kn) = d) (entries fs))"

definition depth_bound :: "filesystem \<Rightarrow> nat" where
  "depth_bound fs = Suc (fold max (map (\<lambda>kn. length (fst kn)) (entries fs)) 0)"

lemma fold_max_ge: "(n::nat) \<le> fold max xs n"
proof (induction xs arbitrary: n)
  case Nil
  then show ?case by simp
next
  case (Cons a xs)
  have "n \<le> max a n" by simp
  also have "\<dots> \<le> fold max xs (max a n)" by (rule Cons.IH)
  finally show ?case by simp
qed

lemma fold_max_mem: "(x::nat) \<in> set xs \<Longrightarrow> x \<le> fold max xs n"
proof (induction xs arbitrary: n)
  case Nil
  then show ?case by simp
next
  case (Cons a xs)
  show ?case
  proof (cases "x = a")
    case True
    have "a \<le> max a n" by simp
    also have "\<dots> \<le> fold max xs (max a n)" by (rule fold_max_ge)
    finally show ?thesis using True by simp
  next
    case False
    with Cons show ?thesis by simp
  qed
qed

lemma child_depth:
  assumes "n \<in> set (child_names fs d)"
  shows "depth_bound fs - length (d @ [n]) < depth_bound fs - length d"
proof -
  from assms obtain k v where kv: "(k, v) \<in> set (entries fs)" and k: "k \<noteq> []" "butlast k = d"
    by (auto simp: child_names_def)
  then have "length k \<in> set (map (\<lambda>kn. length (fst kn)) (entries fs))" by force
  then have "length k \<le> fold max (map (\<lambda>kn. length (fst kn)) (entries fs)) 0"
    by (rule fold_max_mem)
  moreover have "length k = Suc (length d)" using k by (cases k rule: rev_cases) auto
  ultimately show ?thesis by (simp add: depth_bound_def)
qed

function os_walk :: "filesystem \<Rightarrow> string \<Rightarrow> cpath \<Rightarrow> (string \<times> string list \<times> string list) list" where
  "os_walk fs top_path d =
     (top_path,
      filter (\<lambda>n. is_dir_at fs (d @ [n])) (child_names fs d),
      filter (\<lambda>n. \<not> is_dir_at fs (d @ [n])) (child_names fs d))
     # concat (map (\<lambda>n. os_walk fs (os_path_join top_path n) (d @ [n]))
                 (filter (\<lambda>n. is_dir_at fs (d @ [n])) (child_names fs d)))"
  by pat_completeness auto
termination
  by (relation "measure (\<lambda>(fs, top_path, d). depth_bound fs - length d)") (auto dest: child_depth)

declare os_walk.simps [simp del]

definition walk_top :: "filesystem \<Rightarrow> string \<Rightarrow> (string \<times> string list \<times> string list) list" where
  "walk_top fs top_path =
     (case resolve fs top_path of
        Inl e \<Rightarrow> []
      | Inr d \<Rightarrow> if is_dir_at fs d then os_walk fs top_path d else [])"

section \<open>The converter object\<close>

text \<open>
  A backend is built from the output path and the input path (the keyword arguments
  \<^verbatim>\<open>output_path\<close> and \<^verbatim>\<open>input_path\<close>) and offers \<^verbatim>\<open>render()\<close>, which acts on the
  file system.  \<^verbatim>\<open>ExternalRenderer\<close> lives outside this module and is a parameter.
\<close>

type_synonym renderer = "filesystem \<Rightarrow> outcome"

type_synonym backend_factory = "string \<Rightarrow> string \<Rightarrow> error + renderer"

record converter =
  source_file :: string
  output_path :: string
  data :: pydict
  tmp_dir_master :: pyval
  tmp_dir :: string
  tmp_odt :: string
  lang_code :: pyval
  backend :: renderer

text \<open>
  \<^verbatim>\<open>set_lang\<close>: the module's \<^verbatim>\<open>settings\<close> is a \<^verbatim>\<open>dict\<close>, read here with
  \<^verbatim>\<open>getattr\<close>.  The result is the value stored in \<^verbatim>\<open>self.lang_code\<close>.
\<close>

definition set_lang :: "pydict \<Rightarrow> pyval \<Rightarrow> error + pyval" where
  "set_lang settings lang =
     (if \<not> truthy lang then
        (case py_split (getattr_dict settings ''LANGUAGE_CODE'' (PyStr ''pl'')) CHR ''-'' of
           Inl e \<Rightarrow> Inl e
         | Inr parts \<Rightarrow> (case parts of [] \<Rightarrow> Inl IndexError | x # xs \<Rightarrow> Inr (PyStr x)))
      else Inr lang)"

text \<open>
  \<^verbatim>\<open>Converter.__init__\<close>.  The file system is only read (\<^verbatim>\<open>os.path.exists\<close>).
  \<open>ExternalRenderer\<close> is the default backend class, \<open>backend_arg\<close> the optional one
  of the caller (\<open>None\<close> for Python's \<^verbatim>\<open>None\<close>).
\<close>

definition Converter_init ::
  "filesystem \<Rightarrow> pydict \<Rightarrow> backend_factory \<Rightarrow>
   string \<Rightarrow> string \<Rightarrow> pydict \<Rightarrow> backend_factory option \<Rightarrow> pyval \<Rightarrow> error + converter" where
  "Converter_init fs settings ExternalRenderer src out dat backend_arg lang =
     (if \<not> os_path_exists fs src then Inl FileDoesNotExist
      else
        let output_path_without_ext = take (length src - 3) src in
        if \<not> truthy (dict_get dat ''id'') then Inl IdDoesNotExist
        else
          let master = dict_get_default settings ''tmp_dir'' (PyStr ''/tmp/INKPY'');
              tdir = py_str master @ ''/'' @ py_str (dict_get dat ''id'');
              output_odt_path = output_path_without_ext @ ''odt'';
              todt = py_str master @ ''/'' @ last (split_on CHR ''/'' output_odt_path)
          in
            (case set_lang settings lang of
               Inl e \<Rightarrow> Inl e
             | Inr lc \<Rightarrow>
                (case (case backend_arg of None \<Rightarrow> ExternalRenderer | Some b \<Rightarrow> b) out todt of
                   Inl e \<Rightarrow> Inl e
                 | Inr r \<Rightarrow>
                     Inr \<lparr>source_file = src, output_path = out, data = dat,
                          tmp_dir_master = master, tmp_dir = tdir, tmp_odt = todt,
                          lang_code = lc, backend = r\<rparr>)))"

section \<open>The \<^verbatim>\<open>zipfile\<close> library\<close>

text \<open>
  \<^verbatim>\<open>ZipFile(p)\<close> for reading: the members of the archive at \<open>p\<close>.
\<close>

definition zip_open_r :: "filesystem \<Rightarrow> string \<Rightarrow> error + (string \<times> content) list" where
  "zip_open_r fs p =
     (case read_file fs p of
        Inl e \<Rightarrow> Inl e
      | Inr (Archive ms) \<Rightarrow> Inr ms
      | Inr other \<Rightarrow> Inl BadZipFile)"

text \<open>
  \<^verbatim>\<open>ZipFile(p, "w")\<close> opens \<open>p\<close> for writing and truncates it: whatever archive was
  there is gone, the new one starts without members and is unfinished until
  \<^verbatim>\<open>close()\<close>, which leaves the members written since in the file.
\<close>

definition zip_open_w :: "filesystem \<Rightarrow> string \<Rightarrow> outcome" where
  "zip_open_w fs p = write_file fs p (Unfinished [])"

definition zip_close :: "filesystem \<Rightarrow> string \<Rightarrow> (string \<times> content) list \<Rightarrow> outcome" where
  "zip_close fs p members = write_file fs p (Archive members)"

text \<open>
  The member name \<^verbatim>\<open>ZipFile.write(filename, arcname)\<close> stores (\<^verbatim>\<open>ZipInfo.from_file\<close>):
  \<^verbatim>\<open>arcname\<close> normalised by \<^verbatim>\<open>os.path.normpath\<close>, then
  \<^verbatim>\<open>while arcname[0] in (os.sep, os.altsep): arcname = arcname[1:]\<close>, which raises
  \<^verbatim>\<open>IndexError\<close> when nothing is left.
\<close>

definition zip_arcname :: "string \<Rightarrow> error + string" where
  "zip_arcname arcname =
     (let stripped = dropWhile (\<lambda>x. x = CHR ''/'') (os_path_normpath arcname)
      in if stripped = [] then Inl IndexError else Inr stripped)"

text \<open>\<^verbatim>\<open>out_file.write(file_path, arcname)\<close> on the archive opened at \<open>out_file\<close>: the
  file is read and appended under the normalised name; a directory becomes an entry
  without data whose name ends in a slash.  When the file read is the archive itself (it
  lies in the directory being packed), what is read is the archive as written so far.\<close>

definition zip_write ::
  "filesystem \<Rightarrow> string \<Rightarrow> (string \<times> content) list \<Rightarrow> string \<Rightarrow> string \<Rightarrow>
   error + (string \<times> content) list" where
  "zip_write fs out_file members file_path arcname =
     (case resolve fs file_path of
        Inl e \<Rightarrow> Inl e
      | Inr c \<Rightarrow>
         (case zip_arcname arcname of
            Inl e \<Rightarrow> Inl e
          | Inr n \<Rightarrow>
             (case node_at fs c of
                Some (File d) \<Rightarrow>
                  Inr (members @ [(n, if resolve fs out_file = Inr c then Unfinished members else d)])
              | _ \<Rightarrow> Inr (members @ [(n @ ''/'', Raw [])]))))"

text \<open>\<^verbatim>\<open>out_file.writestr(ZipInfo(name), data)\<close>: the name is stored as it is given.\<close>

definition zip_writestr ::
  "(string \<times> content) list \<Rightarrow> string \<Rightarrow> string \<Rightarrow> (string \<times> content) list" where
  "zip_writestr members name d = members @ [(name, Raw d)]"

text \<open>
  \<^verbatim>\<open>ZipFile.extractall(path)\<close>, member by member (\<^verbatim>\<open>_extract_member\<close>): empty,
  \<^verbatim>\<open>.\<close> and \<^verbatim>\<open>..\<close> components of the member name are dropped, the target is the
  normalised join with \<open>path\<close>, missing upper directories are created, a member whose
  name ends in a slash becomes a directory, any other a file.
\<close>

definition extract_member :: "filesystem \<Rightarrow> string \<Rightarrow> string \<times> content \<Rightarrow> outcome" where
  "extract_member fs path member =
     (let arcname = join_sep (filter (\<lambda>x. x \<notin> {[], ''.'', ''..''}) (split_on CHR ''/'' (fst member)));
          targetpath = os_path_normpath (os_path_join path arcname);
          upperdirs = os_path_dirname targetpath
      in
        (case (if upperdirs \<noteq> [] \<and> \<not> os_path_exists fs upperdirs then makedirs fs upperdirs
               else Done fs) of
           Raised e fs' \<Rightarrow> Raised e fs'
         | Done fs' \<Rightarrow>
             if fst member \<noteq> [] \<and> last (fst member) = CHR ''/''
             then (if \<not> os_path_isdir fs' targetpath then mkdir fs' targetpath else Done fs')
             else write_file fs' targetpath (snd member)))"

fun extractall :: "filesystem \<Rightarrow> (string \<times> content) list \<Rightarrow> string \<Rightarrow> outcome" where
  "extractall fs [] path = Done fs"
| "extractall fs (m # ms) path =
     (case extract_member fs path m of
        Raised e fs' \<Rightarrow> Raised e fs'
      | Done fs' \<Rightarrow> extractall fs' ms path)"

section \<open>The methods of \<^verbatim>\<open>Converter\<close>\<close>

text \<open>\<^verbatim>\<open>unzip_odt\<close>.\<close>

definition unzip_odt :: "converter \<Rightarrow> filesystem \<Rightarrow> outcome" where
  "unzip_odt self fs =
     (case (if \<not> os_path_exists fs (tmp_dir self) then makedirs fs (tmp_dir self) else Done fs) of
        Raised e fs' \<Rightarrow> Raised e fs'
      | Done fs' \<Rightarrow>
         (case zip_open_r fs' (source_file self) of
            Inl e \<Rightarrow> Raised e fs'
          | Inr members \<Rightarrow> extractall fs' members (tmp_dir self)))"

text \<open>
  \<^verbatim>\<open>render\<close> with its nested \<^verbatim>\<open>_render(file_name)\<close>.  The template engine
  (\<^verbatim>\<open>_jinja_renderer\<close>: decoding, \<^verbatim>\<open>SandboxedEnvironment\<close>, rendering with
  \<^verbatim>\<open>self.data\<close>) is the parameter \<open>jinja\<close>.  It raises or returns the rendered
  text, given by what \<^verbatim>\<open>.encode("UTF-8")\<close> makes of it: its bytes, or the error the
  encoding raises.  The encoding runs when the file is already open for writing, that is,
  truncated.
\<close>

datatype rendering = Encodable string | Unencodable error

type_synonym template_engine = "pydict \<Rightarrow> content \<Rightarrow> error + rendering"

definition inner_render :: "template_engine \<Rightarrow> converter \<Rightarrow> filesystem \<Rightarrow> string \<Rightarrow> outcome" where
  "inner_render jinja self fs file_name =
     (case read_file fs file_name of
        Inl e \<Rightarrow> Raised e fs
      | Inr file_content \<Rightarrow>
         (case jinja (data self) file_content of
            Inl e \<Rightarrow> Raised e fs
          | Inr new_content \<Rightarrow>
             (case write_file fs file_name (Raw []) of
                Raised e fs' \<Rightarrow> Raised e fs'
              | Done fs' \<Rightarrow>
                 (case new_content of
                    Unencodable e \<Rightarrow> Raised e fs'
                  | Encodable bytes \<Rightarrow> write_file fs' file_name (Raw bytes)))))"

definition render :: "template_engine \<Rightarrow> converter \<Rightarrow> filesystem \<Rightarrow> outcome" where
  "render jinja self fs =
     (let content_xml = tmp_dir self @ ''/content.xml'';
          styles_xml = tmp_dir self @ ''/styles.xml''
      in (case inner_render jinja self fs content_xml of
            Raised e fs' \<Rightarrow> Raised e fs'
          | Done fs' \<Rightarrow> inner_render jinja self fs' styles_xml))"

text \<open>\<^verbatim>\<open>zip_dir\<close> with its nested \<^verbatim>\<open>trim_path\<close>.\<close>

definition trim_path :: "string \<Rightarrow> string \<Rightarrow> string \<Rightarrow> string" where
  "trim_path parentDir dirToZip path =
     (let archive_path = replace_first parentDir [] path;
          archive_path' =
            (if parentDir \<noteq> [] then replace_first (dirToZip @ ''/'') [] archive_path
             else archive_path)
      in os_path_normcase archive_path')"

text \<open>The inner loop over \<^verbatim>\<open>fileNames\<close>.\<close>

fun zip_files ::
  "filesystem \<Rightarrow> string \<Rightarrow> string \<Rightarrow> string \<Rightarrow> string \<Rightarrow> string list \<Rightarrow>
   (string \<times> content) list \<Rightarrow> error + (string \<times> content) list" where
  "zip_files fs out_file parentDir dirToZip archiveDir_path [] members = Inr members"
| "zip_files fs out_file parentDir dirToZip archiveDir_path (fileName # fileNames) members =
     (let file_path = os_path_join archiveDir_path fileName in
      case zip_write fs out_file members file_path (trim_path parentDir dirToZip file_path) of
        Inl e \<Rightarrow> Inl e
      | Inr members' \<Rightarrow>
          zip_files fs out_file parentDir dirToZip archiveDir_path fileNames members')"

text \<open>The outer loop over \<^verbatim>\<open>os.walk(dir_path)\<close>.\<close>

fun zip_walk ::
  "filesystem \<Rightarrow> string \<Rightarrow> string \<Rightarrow> string \<Rightarrow>
   (string \<times> string list \<times> string list) list \<Rightarrow>
   (string \<times> content) list \<Rightarrow> error + (string \<times> content) list" where
  "zip_walk fs out_file parentDir dirToZip [] members = Inr members"
| "zip_walk fs out_file parentDir dirToZip ((archiveDir_path, dirNames, fileNames) # rest) members =
     (case zip_files fs out_file parentDir dirToZip archiveDir_path fileNames members of
        Inl e \<Rightarrow> Inl e
      | Inr members' \<Rightarrow>
          zip_walk fs out_file parentDir dirToZip rest
            (if fileNames = [] \<and> dirNames = []
             then zip_writestr members' (trim_path parentDir dirToZip archiveDir_path @ ''/'') []
             else members'))"

definition zip_dir :: "filesystem \<Rightarrow> string \<Rightarrow> string option \<Rightarrow> outcome" where
  "zip_dir fs dir_path zip_file_path_arg =
     (let zip_file_path =
            (case zip_file_path_arg of
               None \<Rightarrow> dir_path @ ''.zip''
             | Some z \<Rightarrow> if z = [] then dir_path @ ''.zip'' else z)
      in
        if \<not> os_path_isdir fs dir_path
        then Raised (OSError (''dir_path argument must point to a directory. '' @ [CHR 0x27]
                       @ dir_path @ [CHR 0x27] @ '' does not.'')) fs
        else
          (case os_path_split dir_path of
             (parentDir, dirToZip) \<Rightarrow>
               (case zip_open_w fs zip_file_path of
                  Raised e fs' \<Rightarrow> Raised e fs'
                | Done fs' \<Rightarrow>
                   (case zip_walk fs' zip_file_path parentDir dirToZip
                           (walk_top fs' dir_path) [] of
                      Inl e \<Rightarrow> Raised e fs'
                    | Inr members \<Rightarrow> zip_close fs' zip_file_path members))))"

definition zip_odt :: "converter \<Rightarrow> filesystem \<Rightarrow> outcome" where
  "zip_odt self fs = zip_dir fs (tmp_dir self) (Some (tmp_odt self))"

definition to_pdf :: "converter \<Rightarrow> filesystem \<Rightarrow> outcome" where
  "to_pdf self fs = backend self fs"

definition remove_tmp :: "converter \<Rightarrow> filesystem \<Rightarrow> outcome" where
  "remove_tmp self fs =
     (case rmtree fs (tmp_dir self) of
        Raised e fs' \<Rightarrow> Raised e fs'
      | Done fs' \<Rightarrow> os_remove fs' (tmp_odt self))"

text \<open>
  Statements in sequence: each runs on the file system the one before left, and the
  first that raises ends the run.  The result lists the steps that were entered, the last
  of them being the one that raised, if any.
\<close>

datatype step = UnzipOdt | Render | ZipOdt | ToPdf | RemoveTmp

fun run_steps :: "(step \<times> (filesystem \<Rightarrow> outcome)) list \<Rightarrow> filesystem \<Rightarrow> step list \<times> outcome" where
  "run_steps [] fs = ([], Done fs)"
| "run_steps (sf # rest) fs =
     (case snd sf fs of
        Raised e fs' \<Rightarrow> ([fst sf], Raised e fs')
      | Done fs' \<Rightarrow> (fst sf # fst (run_steps rest fs'), snd (run_steps rest fs')))"

text \<open>\<^verbatim>\<open>_convert\<close> and \<^verbatim>\<open>convert\<close>.\<close>

definition underscore_convert :: "template_engine \<Rightarrow> converter \<Rightarrow> filesystem \<Rightarrow> step list \<times> outcome" where
  "underscore_convert jinja self fs =
     run_steps
       [(UnzipOdt, unzip_odt self), (Render, render jinja self), (ZipOdt, zip_odt self),
        (ToPdf, to_pdf self), (RemoveTmp, remove_tmp self)] fs"

definition convert :: "template_engine \<Rightarrow> converter \<Rightarrow> filesystem \<Rightarrow> step list \<times> outcome" where
  "convert jinja self fs = underscore_convert jinja self fs"

text \<open>
  The way the class is used: \<^verbatim>\<open>Converter(source_file, output_path, data, backend,
  lang_code).convert()\<close>.  A constructor that raises leaves no object to call
  \<^verbatim>\<open>convert\<close> on.
\<close>

definition construct_and_convert ::
  "template_engine \<Rightarrow> filesystem \<Rightarrow> pydict \<Rightarrow> backend_factory \<Rightarrow>
   string \<Rightarrow> string \<Rightarrow> pydict \<Rightarrow> backend_factory option \<Rightarrow> pyval \<Rightarrow> step list \<times> outcome" where
  "construct_and_convert jinja fs settings ExternalRenderer src out dat backend_arg lang =
     (case Converter_init fs settings ExternalRenderer src out dat backend_arg lang of
        Inl e \<Rightarrow> ([], Raised e fs)
      | Inr self \<Rightarrow> convert jinja self fs)"

text \<open>Names as a directory listing gives them: not empty, not \<^verbatim>\<open>.\<close> or \<^verbatim>\<open>..\<close>,
  without a slash.  \<open>join_sep\<close> of such names is a relative path.\<close>

definition clean_names :: "string list \<Rightarrow> bool" where
  "clean_names comps =
     (comps \<noteq> [] \<and> list_all (\<lambda>c. c \<noteq> [] \<and> c \<noteq> ''.'' \<and> c \<noteq> ''..'' \<and> CHR ''/'' \<notin> set c) comps)"

section \<open>What a run leaves behind\<close>

text \<open>The file system an outcome carries, raised or not.\<close>

fun final :: "outcome \<Rightarrow> filesystem" where
  "final (Raised e fs) = fs"
| "final (Done fs) = fs"

text \<open>
  \<open>nothing_removed fs fs'\<close>: every path that names something in \<open>fs\<close> still does in
  \<open>fs'\<close>, and every path that names a directory still names a directory.
\<close>

definition nothing_removed :: "filesystem \<Rightarrow> filesystem \<Rightarrow> bool" where
  "nothing_removed fs fs' =
     (\<forall>p. (os_path_exists fs p \<longrightarrow> os_path_exists fs' p)
        \<and> (os_path_isdir fs p \<longrightarrow> os_path_isdir fs' p))"

text \<open>
  \<open>grows fs fs'\<close>: the same working directory, every entry of \<open>fs\<close> is an entry of
  \<open>fs'\<close>, and every directory of \<open>fs\<close> is a directory of \<open>fs'\<close>.
\<close>

definition grows :: "filesystem \<Rightarrow> filesystem \<Rightarrow> bool" where
  "grows fs fs' =
     (cwd fs' = cwd fs
      \<and> (\<forall>p. node_at fs p = Some Dir \<longrightarrow> node_at fs' p = Some Dir)
      \<and> (\<forall>p. node_at fs p \<noteq> None \<longrightarrow> node_at fs' p \<noteq> None))"

section \<open>File names as the specification words them\<close>

text \<open>
  The base name of a path (\<^verbatim>\<open>os.path.basename\<close>) and, after \<^verbatim>\<open>os.path.splitext\<close>,
  its extension: the part from the last dot on, unless only dots come before that dot.
  \<open>dotted_ext\<close> keeps the dot, \<open>extension\<close> drops it, \<open>file_stem\<close> is the base name
  without its extension.
\<close>

definition basename :: "string \<Rightarrow> string" where
  "basename p = last (split_on CHR ''/'' p)"

definition dotted_ext :: "string \<Rightarrow> string" where
  "dotted_ext b =
     (let e = rev (takeWhile (\<lambda>x. x \<noteq> CHR ''.'') (rev b));
          pre = take (length b - length e - 1) b
      in if CHR ''.'' \<in> set b \<and> filter (\<lambda>x. x \<noteq> CHR ''.'') pre \<noteq> []
         then CHR ''.'' # e else [])"

definition extension :: "string \<Rightarrow> string" where
  "extension b = drop 1 (dotted_ext b)"

definition file_stem :: "string \<Rightarrow> string" where
  "file_stem b = take (length b - length (dotted_ext b)) b"

section \<open>Fixtures\<close>

text \<open>A backend that does nothing, and small file systems for concrete runs.\<close>

definition idle_backend :: backend_factory where
  "idle_backend out inp = Inr Done"

definition plain_engine :: template_engine where
  "plain_engine dat c =
     (case c of Raw s \<Rightarrow> Inr (Encodable s) | other \<Rightarrow> Inl (OtherError ''UnicodeDecodeError''))"

definition pdf_backend :: backend_factory where
  "pdf_backend out inp = Inr (\<lambda>fs. write_file fs out (Raw ''%PDF''))"

definition fs_odt :: filesystem where
  "fs_odt =
     \<lparr>entries =
        [([''srv''], Dir),
         ([''srv'', ''report.odt''],
            File (Archive [(''mimetype'', Raw ''application/vnd.oasis.opendocument.text''),
                           (''content.xml'', Raw ''Hello''),
                           (''styles.xml'', Raw ''plain''),
                           (''Pictures/'', Raw []),
                           (''META-INF/manifest.xml'', Raw ''manifest'')])),
         ([''tmp''], Dir)],
      cwd = []\<rparr>"

definition fs_unpacked :: filesystem where
  "fs_unpacked =
     \<lparr>entries =
        [([''tmp''], Dir), ([''tmp'', ''INKPY''], Dir), ([''tmp'', ''INKPY'', ''42''], Dir),
         ([''tmp'', ''INKPY'', ''42'', ''content.xml''], File (Raw ''Hello'')),
         ([''tmp'', ''INKPY'', ''42'', ''styles.xml''], File (Raw ''plain'')),
         ([''tmp'', ''INKPY'', ''42'', ''Pictures''], Dir)],
      cwd = []\<rparr>"

definition fs_stale :: filesystem where
  "fs_stale =
     \<lparr>entries =
        [([''tmp''], Dir), ([''tmp'', ''INKPY''], Dir), ([''tmp'', ''INKPY'', ''42''], Dir),
         ([''tmp'', ''INKPY'', ''42'', ''content.xml''], File (Raw ''Hello'')),
         ([''tmp'', ''INKPY'', ''report.odt''], File (Archive [(''old.txt'', Raw ''old'')]))],
      cwd = []\<rparr>"

definition pdf_renderer :: renderer where
  "pdf_renderer fs = write_file fs ''/srv/out.pdf'' (Raw ''%PDF'')"

definition failing_renderer :: renderer where
  "failing_renderer fs = Raised (OtherError ''conversion failed'') fs"

text \<open>The request for \<^verbatim>\<open>/srv/report.odt\<close> with the id \<^verbatim>\<open>42\<close>, as the constructor
  builds it under the default settings, with the given backend.\<close>

definition sample_request :: "renderer \<Rightarrow> converter" where
  "sample_request r =
     \<lparr>source_file = ''/srv/report.odt'', output_path = ''/srv/out.pdf'',
      data = [''id'' \<mapsto> PyStr ''42''], tmp_dir_master = PyStr ''/tmp/INKPY'',
      tmp_dir = ''/tmp/INKPY/42'', tmp_odt = ''/tmp/INKPY/report.odt'',
      lang_code = PyStr ''pl'', backend = r\<rparr>"

definition fs_not_zip :: filesystem where
  "fs_not_zip =
     \<lparr>entries = [([''srv''], Dir), ([''srv'', ''report.odt''], File (Raw ''plain text'')),
                 ([''tmp''], Dir)],
      cwd = []\<rparr>"

definition fs_no_styles :: filesystem where
  "fs_no_styles =
     \<lparr>entries = [([''srv''], Dir),
                 ([''srv'', ''report.odt''], File (Archive [(''content.xml'', Raw ''Hello'')])),
                 ([''tmp''], Dir)],
      cwd = []\<rparr>"

definition fs_blocked :: filesystem where
  "fs_blocked =
     \<lparr>entries = [([''srv''], Dir),
                 ([''srv'', ''report.odt''],
                    File (Archive [(''content.xml'', Raw ''Hello''),
                                   (''styles.xml'', Raw ''plain'')])),
                 ([''tmp''], Dir), ([''tmp'', ''INKPY''], Dir),
                 ([''tmp'', ''INKPY'', ''report.odt''], Dir)],
      cwd = []\<rparr>"

definition fs_short_name :: filesystem where
  "fs_short_name =
     \<lparr>entries = [([''ab.''], Dir), ([''ab.'', ''ab''], File (Archive []))], cwd = []\<rparr>"

definition fs_report :: filesystem where
  "fs_report =
     \<lparr>entries = [([''srv''], Dir), ([''srv'', ''report.odt''], File (Archive [])),
                 ([''srv'', ''report.docx''], File (Archive []))],
      cwd = []\<rparr>"

section \<open>Facts about strings and file names\<close>

lemma split_on_not_Nil: "split_on c s \<noteq> []"
  by (induction s) (auto split: list.splits)

lemma length_split_on: "length (split_on c s) = Suc (length (filter (\<lambda>x. x = c) s))"
  by (induction s) (auto split: list.splits simp: split_on_not_Nil)

lemma split_on_absent: "c \<notin> set s \<Longrightarrow> split_on c s = [s]"
  by (induction s) (auto split: list.splits)

lemma last_split_on_append:
  assumes "c \<notin> set b"
  shows "last (split_on c (a @ c # b)) = b"
proof (induction a)
  case Nil
  show ?case using assms by (simp add: split_on_absent)
next
  case (Cons x a)
  have len: "2 \<le> length (split_on c (a @ c # b))"
    by (simp add: length_split_on)
  show ?case
  proof (cases "x = c")
    case True
    then show ?thesis using Cons by (simp add: split_on_not_Nil)
  next
    case False
    obtain y ys where sp: "split_on c (a @ c # b) = y # ys"
      using split_on_not_Nil by (cases "split_on c (a @ c # b)") auto
    with len have "ys \<noteq> []" by auto
    with sp Cons False show ?thesis by simp
  qed
qed

lemma basename_no_sep: "CHR ''/'' \<notin> set (basename p)"
proof (cases "CHR ''/'' \<in> set p")
  case False
  then show ?thesis by (simp add: basename_def split_on_absent)
next
  case True
  then obtain a b where "p = a @ CHR ''/'' # b" "CHR ''/'' \<notin> set b"
    using split_list_last by fastforce
  then show ?thesis by (simp add: basename_def last_split_on_append)
qed

lemma last_segment_of_cut:
  assumes "3 \<le> length (basename p)"
  shows "last (split_on CHR ''/'' (take (length p - 3) p @ ''odt'')) =
         take (length (basename p) - 3) (basename p) @ ''odt''"
proof (cases "CHR ''/'' \<in> set p")
  case False
  then have b: "basename p = p" by (simp add: basename_def split_on_absent)
  have "CHR ''/'' \<notin> set (take (length p - 3) p @ ''odt'')"
    using False by (auto dest: in_set_takeD)
  then show ?thesis using b by (simp add: split_on_absent)
next
  case True
  then obtain a b where p: "p = a @ CHR ''/'' # b" and nb: "CHR ''/'' \<notin> set b"
    using split_list_last by fastforce
  then have b: "basename p = b" by (simp add: basename_def last_split_on_append)
  with assms have "3 \<le> length b" by simp
  then have cut: "take (length p - 3) p = a @ CHR ''/'' # take (length b - 3) b"
    using p by (simp add: take_Cons' Suc_diff_le)
  have "CHR ''/'' \<notin> set (take (length b - 3) b @ ''odt'')"
    using nb by (auto dest: in_set_takeD)
  then show ?thesis using cut b last_split_on_append [of "CHR ''/''" "take (length b - 3) b @ ''odt''" a]
    by simp
qed

lemma stem_ext: "file_stem b @ dotted_ext b = b"
proof (cases "dotted_ext b = []")
  case True
  then show ?thesis by (simp add: file_stem_def)
next
  case False
  then have dot: "CHR ''.'' \<in> set b"
    and de: "dotted_ext b = CHR ''.'' # rev (takeWhile (\<lambda>x. x \<noteq> CHR ''.'') (rev b))"
    by (auto simp: dotted_ext_def Let_def split: if_splits)
  from dot obtain p e where b: "b = p @ CHR ''.'' # e" and ne: "CHR ''.'' \<notin> set e"
    using split_list_last by fastforce
  have "takeWhile (\<lambda>x. x \<noteq> CHR ''.'') (rev b) = rev e"
    using b ne by (auto simp: takeWhile_tail)
  then have "dotted_ext b = CHR ''.'' # e" using de by simp
  then show ?thesis using b by (simp add: file_stem_def)
qed

lemma dotted_ext_cases: "dotted_ext b = [] \<or> (\<exists>e. dotted_ext b = CHR ''.'' # e)"
  by (auto simp: dotted_ext_def Let_def)

lemma ext3_imp: 
  assumes "length (extension b) = 3"
  shows "take (length b - 3) b @ ''odt'' = file_stem b @ ''.odt''" and "3 \<le> length b"
proof -
  from assms obtain e where de: "dotted_ext b = CHR ''.'' # e" and le: "length e = 3"
    using dotted_ext_cases [of b] by (auto simp: extension_def)
  have b: "b = file_stem b @ CHR ''.'' # e" using stem_ext [of b] de by simp
  have "length b = length (file_stem b) + 4" using arg_cong [OF b, of length] le by simp
  then show "3 \<le> length b" by simp
  have "take (length b - 3) b = take (length (file_stem b) + 1) (file_stem b @ CHR ''.'' # e)"
    using b \<open>length b = length (file_stem b) + 4\<close> by simp
  then show "take (length b - 3) b @ ''odt'' = file_stem b @ ''.odt''" by simp
qed

lemma imp_ext3:
  assumes "3 \<le> length b" "take (length b - 3) b @ ''odt'' = file_stem b @ ''.odt''"
  shows "length (extension b) = 3"
proof -
  have "length (take (length b - 3) b @ ''odt'') = length (file_stem b @ ''.odt'')"
    using assms(2) by simp
  then have "length b = length (file_stem b) + 4" using assms(1) by simp
  moreover have "length b = length (file_stem b) + length (dotted_ext b)"
    using arg_cong [OF stem_ext [of b], of length] by simp
  ultimately have "length (dotted_ext b) = 4" by simp
  then show ?thesis by (simp add: extension_def)
qed

section \<open>The constructor\<close>

lemma exists_short: "os_path_exists fs_short_name ''ab./ab''"
  by (simp add: os_path_exists_def resolve_def start_of_def fs_short_name_def node_at_def
      is_dir_at_def)

lemma exists_report: "os_path_exists fs_report ''/srv/report.odt''"
  by (simp add: os_path_exists_def resolve_def start_of_def fs_report_def node_at_def
      is_dir_at_def)

lemma exists_docx: "os_path_exists fs_report ''/srv/report.docx''"
  by (simp add: os_path_exists_def resolve_def start_of_def fs_report_def node_at_def
      is_dir_at_def)

lemma missing_report: "\<not> os_path_exists fs_report ''/srv/missing.odt''"
  by (simp add: os_path_exists_def resolve_def start_of_def fs_report_def node_at_def
      is_dir_at_def)

lemma set_lang_none: "set_lang settings PyNone = Inr (PyStr ''pl'')"
  by (simp add: set_lang_def getattr_dict_def dict_attribute_names_def)

lemma init_tmp_odt:
  assumes "Converter_init fs settings ExternalRenderer src out dat backend_arg lang = Inr c"
  shows "tmp_odt c =
           py_str (dict_get_default settings ''tmp_dir'' (PyStr ''/tmp/INKPY'')) @ ''/'' @
           last (split_on CHR ''/'' (take (length src - 3) src @ ''odt''))"
  using assms
  by (auto simp: Converter_init_def Let_def split: if_splits sum.splits)

lemma init_report:
  "Converter_init fs_report Map.empty idle_backend ''/srv/report.odt'' ''/srv/out.pdf''
     [''id'' \<mapsto> PyStr ''42''] None PyNone
   = Inr \<lparr>source_file = ''/srv/report.odt'', output_path = ''/srv/out.pdf'',
          data = [''id'' \<mapsto> PyStr ''42''], tmp_dir_master = PyStr ''/tmp/INKPY'',
          tmp_dir = ''/tmp/INKPY/42'', tmp_odt = ''/tmp/INKPY/report.odt'',
          lang_code = PyStr ''pl'', backend = Done\<rparr>"
  by (simp add: Converter_init_def exists_report dict_get_def dict_get_default_def set_lang_none
      idle_backend_def)

lemma init_docx:
  "Converter_init fs_report Map.empty idle_backend ''/srv/report.docx'' ''/srv/out.pdf''
     [''id'' \<mapsto> PyStr ''42''] None PyNone
   = Inr \<lparr>source_file = ''/srv/report.docx'', output_path = ''/srv/out.pdf'',
          data = [''id'' \<mapsto> PyStr ''42''], tmp_dir_master = PyStr ''/tmp/INKPY'',
          tmp_dir = ''/tmp/INKPY/42'', tmp_odt = ''/tmp/INKPY/report.dodt'',
          lang_code = PyStr ''pl'', backend = Done\<rparr>"
  by (simp add: Converter_init_def exists_docx dict_get_def dict_get_default_def set_lang_none
      idle_backend_def)

lemma ext_report: "length (extension (basename ''/srv/report.odt'')) = 3"
  by (simp add: basename_def extension_def dotted_ext_def)

lemma stem_report: "file_stem (basename ''/srv/report.odt'') = ''report''"
  by (simp add: basename_def file_stem_def dotted_ext_def)

lemma ext_docx: "extension (basename ''/srv/report.docx'') = ''docx''"
  by (simp add: basename_def extension_def dotted_ext_def)

text \<open>
  Claim C5.  A data mapping without the key \<^verbatim>\<open>id\<close> makes the constructor fail, and
  nothing is written: no step of the pipeline is entered and the file system is the one
  before the call.  The error is \<open>IdDoesNotExist\<close> only when the source file exists: the
  test of the source path, a read of the file system, comes first and raises
  \<open>FileDoesNotExist\<close> for a missing source.
\<close>

theorem missing_id_rejected:
  assumes "dat ''id'' = None"
  shows "Converter_init fs settings ExternalRenderer src out dat backend_arg lang
           = Inl (if os_path_exists fs src then IdDoesNotExist else FileDoesNotExist)
       \<and> construct_and_convert jinja fs settings ExternalRenderer src out dat backend_arg lang
           = ([], Raised (if os_path_exists fs src then IdDoesNotExist else FileDoesNotExist) fs)"
  using assms
  by (simp add: construct_and_convert_def Converter_init_def Let_def dict_get_def)

theorem missing_id_rejected_witness:
  "Converter_init fs_report Map.empty idle_backend ''/srv/report.odt'' ''/srv/out.pdf''
       Map.empty None PyNone = Inl IdDoesNotExist
   \<and> construct_and_convert plain_engine fs_report Map.empty idle_backend ''/srv/report.odt''
       ''/srv/out.pdf'' Map.empty None PyNone = ([], Raised IdDoesNotExist fs_report)"
  using missing_id_rejected [of Map.empty fs_report Map.empty idle_backend "''/srv/report.odt''"
      "''/srv/out.pdf''" None PyNone plain_engine]
  by (simp add: exists_report)

text \<open>
  The claim as stated fails when the source file is missing as well: the constructor
  raises \<open>FileDoesNotExist\<close>, not \<open>IdDoesNotExist\<close>.
\<close>

theorem missing_id_missing_source:
  "Map.empty ''id'' = (None :: pyval option)
   \<and> Converter_init fs_report Map.empty idle_backend ''/srv/missing.odt'' ''/srv/out.pdf''
       Map.empty None PyNone = Inl FileDoesNotExist
   \<and> Converter_init fs_report Map.empty idle_backend ''/srv/missing.odt'' ''/srv/out.pdf''
       Map.empty None PyNone \<noteq> Inl IdDoesNotExist"
  by (simp add: Converter_init_def missing_report)

text \<open>
  Claim C6.  A source path that does not exist makes the constructor fail with
  \<open>FileDoesNotExist\<close>; used as \<^verbatim>\<open>Converter(...).convert()\<close>, no step is entered
  (\<^verbatim>\<open>unzip_odt\<close> is never called) and the file system is unchanged.
\<close>

theorem missing_source_rejected:
  assumes "\<not> os_path_exists fs src"
  shows "Converter_init fs settings ExternalRenderer src out dat backend_arg lang
           = Inl FileDoesNotExist
       \<and> construct_and_convert jinja fs settings ExternalRenderer src out dat backend_arg lang
           = ([], Raised FileDoesNotExist fs)"
  using assms by (simp add: construct_and_convert_def Converter_init_def)

theorem missing_source_rejected_witness:
  "\<not> os_path_exists fs_report ''/srv/missing.odt''
   \<and> Converter_init fs_report Map.empty pdf_backend ''/srv/missing.odt'' ''/srv/out.pdf''
       [''id'' \<mapsto> PyStr ''42''] None PyNone = Inl FileDoesNotExist
   \<and> construct_and_convert plain_engine fs_report Map.empty pdf_backend ''/srv/missing.odt''
       ''/srv/out.pdf'' [''id'' \<mapsto> PyStr ''42''] None PyNone
       = ([], Raised FileDoesNotExist fs_report)"
  using missing_source_rejected [OF missing_report, of Map.empty pdf_backend "''/srv/out.pdf''"
      "[''id'' \<mapsto> PyStr ''42'']" None PyNone plain_engine]
  by (simp add: missing_report)

text \<open>
  Claim C8.  With no override, \<^verbatim>\<open>set_lang\<close> reads the language with
  \<^verbatim>\<open>getattr(settings, 'LANGUAGE_CODE', 'pl')\<close> from a dictionary, whose keys are not
  attributes: a configured \<^verbatim>\<open>LANGUAGE_CODE\<close> of \<^verbatim>\<open>en-us\<close> is ignored and the result
  is \<^verbatim>\<open>pl\<close>.
\<close>

theorem set_lang_ignores_settings:
  "set_lang (Map.empty(''LANGUAGE_CODE'' \<mapsto> PyStr ''en-us'')) PyNone = Inr (PyStr ''pl'')"
  by (simp add: set_lang_def getattr_dict_def dict_attribute_names_def)

text \<open>
  Claim C9.  The intermediate archive is the temp root, a slash, and the last segment of
  the source path with its last three characters replaced by \<^verbatim>\<open>odt\<close>.  When the
  extension of the source has three characters this is the base name with the extension
  \<^verbatim>\<open>odt\<close>; conversely, for a base name of three characters or more, it is that name
  only when the extension has three characters.
\<close>

theorem tmp_odt_name:
  assumes "Converter_init fs settings ExternalRenderer src out dat backend_arg lang = Inr c"
  shows "tmp_odt c =
           py_str (dict_get_default settings ''tmp_dir'' (PyStr ''/tmp/INKPY'')) @ ''/'' @
           last (split_on CHR ''/'' (take (length src - 3) src @ ''odt''))
       \<and> (length (extension (basename src)) = 3 \<longrightarrow>
            tmp_odt c =
              py_str (dict_get_default settings ''tmp_dir'' (PyStr ''/tmp/INKPY'')) @ ''/'' @
              file_stem (basename src) @ ''.odt'')
       \<and> (3 \<le> length (basename src) \<and>
            tmp_odt c =
              py_str (dict_get_default settings ''tmp_dir'' (PyStr ''/tmp/INKPY'')) @ ''/'' @
              file_stem (basename src) @ ''.odt'' \<longrightarrow>
            length (extension (basename src)) = 3)"
proof -
  let ?m = "py_str (dict_get_default settings ''tmp_dir'' (PyStr ''/tmp/INKPY''))"
  let ?b = "basename src"
  have t: "tmp_odt c = ?m @ ''/'' @ last (split_on CHR ''/'' (take (length src - 3) src @ ''odt''))"
    using assms by (rule init_tmp_odt)
  have a: "tmp_odt c = ?m @ ''/'' @ file_stem ?b @ ''.odt''" if e: "length (extension ?b) = 3"
  proof -
    have "3 \<le> length ?b" using e by (rule ext3_imp(2))
    then show ?thesis using t ext3_imp(1) [OF e] by (simp add: last_segment_of_cut)
  qed
  have b: "length (extension ?b) = 3"
    if l: "3 \<le> length ?b" and e: "tmp_odt c = ?m @ ''/'' @ file_stem ?b @ ''.odt''"
  proof -
    have "take (length ?b - 3) ?b @ ''odt'' = file_stem ?b @ ''.odt''"
      using t e l by (simp add: last_segment_of_cut)
    with l show ?thesis by (rule imp_ext3)
  qed
  show ?thesis using t a b by blast
qed

theorem tmp_odt_name_witness:
  "length (extension (basename ''/srv/report.odt'')) = 3
   \<and> map_sum id tmp_odt
        (Converter_init fs_report Map.empty idle_backend ''/srv/report.odt'' ''/srv/out.pdf''
           [''id'' \<mapsto> PyStr ''42''] None PyNone)
       = Inr (''/tmp/INKPY/'' @ file_stem (basename ''/srv/report.odt'') @ ''.odt'')
   \<and> length (extension (basename ''/srv/report.docx'')) = 4
   \<and> map_sum id tmp_odt
        (Converter_init fs_report Map.empty idle_backend ''/srv/report.docx'' ''/srv/out.pdf''
           [''id'' \<mapsto> PyStr ''42''] None PyNone)
       = Inr ''/tmp/INKPY/report.dodt''"
proof -
  have "map_sum id tmp_odt
        (Converter_init fs_report Map.empty idle_backend ''/srv/report.odt'' ''/srv/out.pdf''
           [''id'' \<mapsto> PyStr ''42''] None PyNone)
       = Inr (''/tmp/INKPY/'' @ file_stem (basename ''/srv/report.odt'') @ ''.odt'')"
    using tmp_odt_name [OF init_report] ext_report
    by (simp add: init_report dict_get_default_def)
  moreover have "map_sum id tmp_odt
        (Converter_init fs_report Map.empty idle_backend ''/srv/report.docx'' ''/srv/out.pdf''
           [''id'' \<mapsto> PyStr ''42''] None PyNone)
       = Inr ''/tmp/INKPY/report.dodt''"
    using tmp_odt_name [OF init_docx]
    by (simp add: init_docx dict_get_default_def)
  ultimately show ?thesis using ext_report by (simp add: ext_docx)
qed

text \<open>
  The claim as stated fails for a source whose base name has fewer than three characters:
  for the file \<^verbatim>\<open>ab\<close> in the directory \<^verbatim>\<open>ab.\<close> the archive is named after the base
  name with the extension \<^verbatim>\<open>odt\<close>, although the source has no extension at all.
\<close>

theorem short_name_without_extension:
  "map_sum id tmp_odt
     (Converter_init fs_short_name Map.empty idle_backend ''ab./ab'' ''out.pdf''
        [''id'' \<mapsto> PyStr ''42''] None PyNone)
     = Inr (''/tmp/INKPY/'' @ file_stem (basename ''ab./ab'') @ ''.odt'')
   \<and> length (extension (basename ''ab./ab'')) \<noteq> 3"
  by (simp add: Converter_init_def exists_short dict_get_def dict_get_default_def set_lang_none
      idle_backend_def basename_def file_stem_def extension_def dotted_ext_def)

text \<open>
  Claim C10.  Whenever \<^verbatim>\<open>data.get('id')\<close> is falsy (the key absent, or its value
  \<^verbatim>\<open>None\<close>, \<^verbatim>\<open>False\<close>, \<^verbatim>\<open>0\<close>, the empty string or any other falsy object) the
  constructor fails: with \<open>IdDoesNotExist\<close> when the source file exists, and with
  \<open>FileDoesNotExist\<close>, raised by the earlier test of the source path, when it does not.
\<close>

theorem falsy_id_rejected:
  assumes "\<not> truthy (dict_get dat ''id'')"
  shows "Converter_init fs settings ExternalRenderer src out dat backend_arg lang
           = Inl (if os_path_exists fs src then IdDoesNotExist else FileDoesNotExist)"
  using assms by (simp add: Converter_init_def Let_def)

theorem falsy_id_rejected_witness:
  "os_path_exists fs_report ''/srv/report.odt''
   \<and> Converter_init fs_report Map.empty idle_backend ''/srv/report.odt'' ''/srv/out.pdf''
        Map.empty None PyNone = Inl IdDoesNotExist
   \<and> Converter_init fs_report Map.empty idle_backend ''/srv/report.odt'' ''/srv/out.pdf''
        [''id'' \<mapsto> PyNone] None PyNone = Inl IdDoesNotExist
   \<and> Converter_init fs_report Map.empty idle_backend ''/srv/report.odt'' ''/srv/out.pdf''
        [''id'' \<mapsto> PyBool False] None PyNone = Inl IdDoesNotExist
   \<and> Converter_init fs_report Map.empty idle_backend ''/srv/report.odt'' ''/srv/out.pdf''
        [''id'' \<mapsto> PyInt 0] None PyNone = Inl IdDoesNotExist
   \<and> Converter_init fs_report Map.empty idle_backend ''/srv/report.odt'' ''/srv/out.pdf''
        [''id'' \<mapsto> PyStr []] None PyNone = Inl IdDoesNotExist
   \<and> Converter_init fs_report Map.empty idle_backend ''/srv/missing.odt'' ''/srv/out.pdf''
        [''id'' \<mapsto> PyInt 0] None PyNone = Inl FileDoesNotExist"
proof -
  have f: "\<not> truthy (dict_get Map.empty ''id'')"
    "\<not> truthy (dict_get [''id'' \<mapsto> PyNone] ''id'')"
    "\<not> truthy (dict_get [''id'' \<mapsto> PyBool False] ''id'')"
    "\<not> truthy (dict_get [''id'' \<mapsto> PyInt 0] ''id'')"
    "\<not> truthy (dict_get [''id'' \<mapsto> PyStr []] ''id'')"
    by (simp_all add: dict_get_def)
  show ?thesis
    using falsy_id_rejected [OF f(1), of fs_report Map.empty idle_backend "''/srv/report.odt''"
        "''/srv/out.pdf''" None PyNone]
      falsy_id_rejected [OF f(2), of fs_report Map.empty idle_backend "''/srv/report.odt''"
        "''/srv/out.pdf''" None PyNone]
      falsy_id_rejected [OF f(3), of fs_report Map.empty idle_backend "''/srv/report.odt''"
        "''/srv/out.pdf''" None PyNone]
      falsy_id_rejected [OF f(4), of fs_report Map.empty idle_backend "''/srv/report.odt''"
        "''/srv/out.pdf''" None PyNone]
      falsy_id_rejected [OF f(5), of fs_report Map.empty idle_backend "''/srv/report.odt''"
        "''/srv/out.pdf''" None PyNone]
      falsy_id_rejected [OF f(4), of fs_report Map.empty idle_backend "''/srv/missing.odt''"
        "''/srv/out.pdf''" None PyNone]
    by (simp add: exists_report missing_report)
qed

text \<open>
  The claim as stated fails when the source file does not exist: the id is the empty
  string, which is falsy, and the constructor raises \<open>FileDoesNotExist\<close>, not
  \<open>IdDoesNotExist\<close>.
\<close>

theorem falsy_id_missing_source:
  "\<not> truthy (dict_get [''id'' \<mapsto> PyStr []] ''id'')
   \<and> Converter_init fs_report Map.empty idle_backend ''/srv/missing.odt'' ''/srv/out.pdf''
        [''id'' \<mapsto> PyStr []] None PyNone = Inl FileDoesNotExist
   \<and> Converter_init fs_report Map.empty idle_backend ''/srv/missing.odt'' ''/srv/out.pdf''
        [''id'' \<mapsto> PyStr []] None PyNone \<noteq> Inl IdDoesNotExist"
  by (simp add: Converter_init_def missing_report dict_get_def)

section \<open>Repacking\<close>

lemma replace_first_prefix: "old \<noteq> [] \<Longrightarrow> replace_first old new (old @ rest) = new @ rest"
  by (cases old) simp_all

lemma replace_first_after_sep:
  assumes "d \<noteq> []" "CHR ''/'' \<notin> set d"
  shows "replace_first (d @ ''/'') [] (CHR ''/'' # d @ CHR ''/'' # rest) = CHR ''/'' # rest"
proof -
  from assms obtain x xs where d: "d = x # xs" "x \<noteq> CHR ''/''"
    by (cases d) auto
  then have "\<not> prefix (d @ ''/'') (CHR ''/'' # d @ CHR ''/'' # rest)"
    by auto
  moreover have "replace_first (d @ ''/'') [] ((d @ ''/'') @ rest) = [] @ rest"
    by (rule replace_first_prefix) simp
  ultimately show ?thesis by simp
qed

text \<open>
  Below \<^verbatim>\<open>parent/dir\<close>, \<^verbatim>\<open>trim_path\<close> removes \<^verbatim>\<open>parent\<close> and \<^verbatim>\<open>dir/\<close> but not
  the separator between them: what is left starts with a slash.
\<close>

lemma trim_path_under_dir:
  assumes "parentDir \<noteq> []" "dirToZip \<noteq> []" "CHR ''/'' \<notin> set dirToZip"
  shows "trim_path parentDir dirToZip (parentDir @ CHR ''/'' # dirToZip @ CHR ''/'' # rest)
           = CHR ''/'' # rest"
  using assms replace_first_prefix [of parentDir "[]" "CHR ''/'' # dirToZip @ CHR ''/'' # rest"]
    replace_first_after_sep [of dirToZip rest]
  by (simp add: trim_path_def os_path_normcase_def)

text \<open>
  What the archive stores for an entry at the relative path \<open>rest\<close> below
  \<^verbatim>\<open>parent/dir\<close>: for a file, \<^verbatim>\<open>ZipFile.write\<close> normalises \<^verbatim>\<open>/rest\<close> to
  \<open>rest\<close>; for an empty directory, \<^verbatim>\<open>writestr\<close> keeps \<^verbatim>\<open>/rest/\<close> as it is.
\<close>

lemma split_on_append_sep:
  "c \<notin> set x \<Longrightarrow> split_on c (x @ c # r) = x # split_on c r"
  by (induction x) (auto split: list.splits simp: split_on_not_Nil)

lemma split_on_join_sep:
  "comps \<noteq> [] \<Longrightarrow> list_all (\<lambda>c. CHR ''/'' \<notin> set c) comps \<Longrightarrow>
   split_on CHR ''/'' (join_sep comps) = comps"
proof (induction comps rule: join_sep.induct)
  case 1
  then show ?case by simp
next
  case (2 x)
  then show ?case by (simp add: split_on_absent)
next
  case (3 x y ys)
  then show ?case by (simp add: split_on_append_sep)
qed

lemma norm_comps_clean:
  "list_all (\<lambda>c. c \<noteq> [] \<and> c \<noteq> ''.'' \<and> c \<noteq> ''..'') cs \<Longrightarrow> norm_comps r acc cs = acc @ cs"
  by (induction cs arbitrary: acc) auto

lemma join_sep_hd:
  "comps \<noteq> [] \<Longrightarrow> hd comps \<noteq> [] \<Longrightarrow> join_sep comps \<noteq> [] \<and> hd (join_sep comps) = hd (hd comps)"
  by (induction comps rule: join_sep.induct) auto

lemma zip_arcname_rooted:
  assumes "clean_names comps"
  shows "zip_arcname (CHR ''/'' # join_sep comps) = Inr (join_sep comps)"
proof -
  from assms have ne: "comps \<noteq> []"
    and all: "list_all (\<lambda>c. c \<noteq> [] \<and> c \<noteq> ''.'' \<and> c \<noteq> ''..'' \<and> CHR ''/'' \<notin> set c) comps"
    by (simp_all add: clean_names_def)
  from all have a1: "list_all (\<lambda>c. CHR ''/'' \<notin> set c) comps"
    and a2: "list_all (\<lambda>c. c \<noteq> [] \<and> c \<noteq> ''.'' \<and> c \<noteq> ''..'') comps"
    by (auto simp: list_all_iff)
  from ne all have h: "hd comps \<noteq> []" "CHR ''/'' \<notin> set (hd comps)"
    by (cases comps; simp)+
  have "hd (hd comps) \<in> set (hd comps)" using h(1) by (rule hd_in_set)
  with h(2) have "hd (hd comps) \<noteq> CHR ''/''" by auto
  with join_sep_hd [OF ne h(1)] have j: "join_sep comps \<noteq> []" "hd (join_sep comps) \<noteq> CHR ''/''"
    by simp_all
  then obtain x xs where jx: "join_sep comps = x # xs" "x \<noteq> CHR ''/''"
    by (cases "join_sep comps") auto
  have np: "\<not> prefix ''/'' (join_sep comps)" using jx by simp
  have "os_path_normpath (CHR ''/'' # join_sep comps) = CHR ''/'' # join_sep comps"
    using np by (simp add: os_path_normpath_def split_on_join_sep [OF ne a1] norm_comps_clean [OF a2])
  then show ?thesis using jx by (simp add: zip_arcname_def)
qed

lemma stored_name_of_file:
  assumes "parentDir \<noteq> []" "dirToZip \<noteq> []" "CHR ''/'' \<notin> set dirToZip" "clean_names comps"
  shows "zip_arcname
           (trim_path parentDir dirToZip
              (parentDir @ CHR ''/'' # dirToZip @ CHR ''/'' # join_sep comps))
         = Inr (join_sep comps)"
  using assms by (simp add: trim_path_under_dir zip_arcname_rooted)

lemma stored_name_of_empty_directory:
  assumes "parentDir \<noteq> []" "dirToZip \<noteq> []" "CHR ''/'' \<notin> set dirToZip"
  shows "zip_writestr members
           (trim_path parentDir dirToZip (parentDir @ CHR ''/'' # dirToZip @ CHR ''/'' # rest) @ ''/'') []
         = members @ [(CHR ''/'' # rest @ ''/'', Raw [])]"
  using assms by (simp add: trim_path_under_dir zip_writestr_def)

text \<open>
  Claim C1.  Repacking the working directory \<^verbatim>\<open>/tmp/INKPY/42\<close>, which holds
  \<^verbatim>\<open>content.xml\<close>, \<^verbatim>\<open>styles.xml\<close> and the empty directory \<^verbatim>\<open>Pictures\<close>: the two
  files are stored at the archive root, the directory under a name that starts with a
  separator.  \<^verbatim>\<open>trim_path\<close> leaves that separator on every path; for a file the
  archive library strips it, for the entry of an empty directory nothing does.
\<close>

theorem repack_keeps_leading_separator:
  "(case zip_dir fs_unpacked ''/tmp/INKPY/42'' (Some ''/tmp/INKPY/report.odt'') of
      Done fs' \<Rightarrow> map_sum id (map fst) (zip_open_r fs' ''/tmp/INKPY/report.odt'')
    | Raised e fs' \<Rightarrow> Inl e)
     = Inr [''content.xml'', ''styles.xml'', ''/Pictures/'']
   \<and> trim_path ''/tmp/INKPY'' ''42'' ''/tmp/INKPY/42/content.xml'' = ''/content.xml''
   \<and> trim_path ''/tmp/INKPY'' ''42'' ''/tmp/INKPY/42/Pictures'' = ''/Pictures''"
  by code_simp

text \<open>
  Claim C2.  Repacking into an archive that exists and holds the member \<^verbatim>\<open>old.txt\<close>:
  afterwards the archive holds the files of the directory only, \<^verbatim>\<open>old.txt\<close> is gone.
\<close>

theorem repack_truncates_existing_archive:
  "zip_open_r fs_stale ''/tmp/INKPY/report.odt'' = Inr [(''old.txt'', Raw ''old'')]
   \<and> (case zip_dir fs_stale ''/tmp/INKPY/42'' (Some ''/tmp/INKPY/report.odt'') of
        Done fs' \<Rightarrow> zip_open_r fs' ''/tmp/INKPY/report.odt''
      | Raised e fs' \<Rightarrow> Inl e)
     = Inr [(''content.xml'', Raw ''Hello'')]"
  by code_simp

text \<open>
  Claim C7.  For a \<^verbatim>\<open>dir_path\<close> that is not a directory, \<^verbatim>\<open>zip_dir\<close> raises a plain
  \<^verbatim>\<open>OSError\<close> with the message of the source, before the archive is opened: the file
  system is unchanged.
\<close>

theorem zip_dir_not_a_directory:
  assumes "\<not> os_path_isdir fs dir_path"
  shows "zip_dir fs dir_path zip_file_path =
           Raised (OSError (''dir_path argument must point to a directory. '' @ [CHR 0x27]
                     @ dir_path @ [CHR 0x27] @ '' does not.'')) fs"
  using assms by (simp add: zip_dir_def Let_def)

lemma stale_archive_not_dir: "\<not> os_path_isdir fs_stale ''/tmp/INKPY/report.odt''"
  by code_simp

theorem zip_dir_not_a_directory_witness:
  "\<not> os_path_isdir fs_stale ''/tmp/INKPY/report.odt''
   \<and> zip_dir fs_stale ''/tmp/INKPY/report.odt'' (Some ''/tmp/INKPY/x.odt'') =
       Raised (OSError (''dir_path argument must point to a directory. '' @ [CHR 0x27]
                 @ ''/tmp/INKPY/report.odt'' @ [CHR 0x27] @ '' does not.'')) fs_stale"
  using zip_dir_not_a_directory [OF stale_archive_not_dir, of "Some ''/tmp/INKPY/x.odt''"]
  by (simp add: stale_archive_not_dir)

text \<open>
  The error is not \<^verbatim>\<open>NotADirectoryError\<close>, the subclass of \<^verbatim>\<open>OSError\<close> the system
  raises by itself: a handler for \<^verbatim>\<open>NotADirectoryError\<close> does not catch it.
\<close>

theorem zip_dir_raises_plain_oserror:
  "\<not> os_path_isdir fs_stale ''/tmp/INKPY/report.odt''
   \<and> zip_dir fs_stale ''/tmp/INKPY/report.odt'' (Some ''/tmp/INKPY/x.odt'')
       \<noteq> Raised NotADirectoryError fs_stale"
  by (simp add: stale_archive_not_dir zip_dir_def)

section \<open>Steps that only add\<close>

text \<open>
  Path resolution is monotone in the file system, and every operation but
  \<^verbatim>\<open>rmtree\<close> and \<^verbatim>\<open>os.remove\<close> only adds entries or overwrites files, whether it
  returns or raises.
\<close>

lemma grows_refl: "grows fs fs"
  by (simp add: grows_def)

lemma grows_trans: "grows a b \<Longrightarrow> grows b c \<Longrightarrow> grows a c"
  by (simp add: grows_def)

lemma resolve_from_grows:
  "grows fs fs' \<Longrightarrow> resolve_from fs cur cs = Inr r \<Longrightarrow> resolve_from fs' cur cs = Inr r"
proof (induction cs arbitrary: cur)
  case Nil
  then show ?case by (auto simp: grows_def split: if_splits)
next
  case (Cons c cs)
  from Cons.prems have ex: "node_at fs cur \<noteq> None" and d: "is_dir_at fs cur"
    by (auto split: if_splits)
  with Cons.prems(1) have ex': "node_at fs' cur \<noteq> None" and d': "is_dir_at fs' cur"
    by (auto simp: grows_def is_dir_at_def)
  show ?case
    using Cons.prems ex d ex' d' Cons.IH
    by (auto split: if_splits)
qed

lemma start_of_grows: "grows fs fs' \<Longrightarrow> start_of fs' p = start_of fs p"
  by (simp add: start_of_def grows_def)

lemma resolve_grows:
  assumes "grows fs fs'" "resolve fs p = Inr r"
  shows "resolve fs' p = Inr r"
proof -
  from assms(2) have p: "p \<noteq> []"
    and r: "resolve_from fs (start_of fs p) (split_on CHR ''/'' p) = Inr r"
    by (auto simp: resolve_def split: if_splits)
  from resolve_from_grows [OF assms(1) r] p show ?thesis
    by (simp add: resolve_def start_of_grows [OF assms(1)])
qed

lemma is_dir_at_grows: "grows fs fs' \<Longrightarrow> is_dir_at fs c \<Longrightarrow> is_dir_at fs' c"
  by (simp add: grows_def is_dir_at_def)

lemma exists_grows: "grows fs fs' \<Longrightarrow> os_path_exists fs p \<Longrightarrow> os_path_exists fs' p"
  by (auto simp: os_path_exists_def split: sum.splits dest: resolve_grows)

lemma isdir_grows:
  assumes "grows fs fs'" "os_path_isdir fs p"
  shows "os_path_isdir fs' p"
proof -
  from assms(2) obtain c where c: "resolve fs p = Inr c" "is_dir_at fs c"
    by (auto simp: os_path_isdir_def split: sum.splits)
  then show ?thesis
    using resolve_grows [OF assms(1) c(1)] is_dir_at_grows [OF assms(1) c(2)]
    by (simp add: os_path_isdir_def)
qed

lemma grows_nothing_removed: "grows fs fs' \<Longrightarrow> nothing_removed fs fs'"
  unfolding nothing_removed_def by (blast intro: exists_grows isdir_grows)

lemma resolve_from_final: "resolve_from fs cur cs = Inr r \<Longrightarrow> node_at fs r \<noteq> None"
  by (induction cs arbitrary: cur) (auto split: if_splits)

lemma resolve_final: "resolve fs p = Inr r \<Longrightarrow> node_at fs r \<noteq> None"
  by (auto simp: resolve_def split: if_splits dest: resolve_from_final)

lemma map_of_filter_fst:
  "map_of (filter (\<lambda>kn. P (fst kn)) xs) k = (if P k then map_of xs k else None)"
  by (induction xs) auto

lemma node_at_update:
  "c \<noteq> [] \<Longrightarrow> node_at (fs\<lparr>entries := AList.update c v (entries fs)\<rparr>) k =
     (if k = c then Some v else node_at fs k)"
  by (simp add: node_at_def update_conv')

lemma node_at_append:
  "node_at (fs\<lparr>entries := entries fs @ [(c, v)]\<rparr>) k =
     (if k \<noteq> [] \<and> k = c \<and> node_at fs k = None then Some v else node_at fs k)"
  by (auto simp: node_at_def map_add_def split: option.splits)

lemma grows_update:
  assumes "c \<noteq> []" "node_at fs c \<noteq> None" "\<not> is_dir_at fs c"
  shows "grows fs (fs\<lparr>entries := AList.update c (File d) (entries fs)\<rparr>)"
  using assms by (simp add: grows_def node_at_update is_dir_at_def)

lemma grows_append: "grows fs (fs\<lparr>entries := entries fs @ [(c, v)]\<rparr>)"
  by (simp add: grows_def node_at_append)

lemma write_file_grows: "grows fs (final (write_file fs p d))"
proof (cases "resolve fs p")
  case (Inr c)
  show ?thesis
  proof (cases "is_dir_at fs c")
    case True
    with Inr show ?thesis by (simp add: write_file_def grows_refl)
  next
    case False
    then have "c \<noteq> []" by (auto simp: is_dir_at_def node_at_def)
    then have "grows fs (fs\<lparr>entries := AList.update c (File d) (entries fs)\<rparr>)"
      using resolve_final [OF Inr] False by (rule grows_update)
    with Inr False show ?thesis by (simp add: write_file_def)
  qed
next
  case (Inl e)
  then show ?thesis
    by (simp add: write_file_def grows_refl grows_append split: sum.splits)
qed

lemma mkdir_grows: "grows fs (final (mkdir fs p))"
  by (simp add: mkdir_def grows_refl grows_append split: sum.splits)

lemma makedirs_grows: "grows fs (final (makedirs fs name))"
proof (induction fs name rule: makedirs.induct)
  case (1 fs name)
  show ?case
  proof (cases "fst (makedirs_parts name) \<noteq> [] \<and> snd (makedirs_parts name) \<noteq> []
         \<and> \<not> os_path_exists fs (fst (makedirs_parts name))")
    case False
    then have "makedirs fs name = mkdir fs name" by (subst makedirs.simps) auto
    then show ?thesis by (simp add: mkdir_grows)
  next
    case True
    then have ih: "grows fs (final (makedirs fs (fst (makedirs_parts name))))"
      using "1.IH" by simp
    show ?thesis
    proof (cases "makedirs fs (fst (makedirs_parts name))")
      case (Done fs')
      with ih have g: "grows fs fs'" by simp
      have "makedirs fs name = (if snd (makedirs_parts name) = ''.'' then Done fs' else mkdir fs' name)"
        using True Done by (subst makedirs.simps) simp
      then show ?thesis
        using g grows_trans [OF g mkdir_grows [of fs' name]] by simp
    next
      case (Raised e fs')
      with ih have g: "grows fs fs'" by simp
      have "makedirs fs name =
          (if e = FileExistsError
           then (if snd (makedirs_parts name) = ''.'' then Done fs' else mkdir fs' name)
           else Raised e fs')"
        using True Raised by (subst makedirs.simps) simp
      then show ?thesis
        using g grows_trans [OF g mkdir_grows [of fs' name]] by simp
    qed
  qed
qed

lemma grows_final_step:
  assumes "grows fs (final r)" "\<And>fs'. grows fs' (final (f fs'))"
  shows "grows fs (final (case r of Raised e fs' \<Rightarrow> Raised e fs' | Done fs' \<Rightarrow> f fs'))"
proof (cases r)
  case (Raised e fs')
  with assms(1) show ?thesis by simp
next
  case (Done fs')
  with assms(1) have "grows fs fs'" by simp
  then show ?thesis using Done grows_trans [OF _ assms(2) [of fs']] by simp
qed

lemma extract_member_grows: "grows fs (final (extract_member fs path m))"
proof -
  have a: "grows fs (final (if c then makedirs fs u else Done fs))" for c u
    by (simp add: makedirs_grows grows_refl)
  have b: "grows fs' (final (if d then (if e then mkdir fs' t else Done fs') else write_file fs' t x))"
    for fs' d e t x
    by (simp add: mkdir_grows write_file_grows grows_refl)
  show ?thesis
    unfolding extract_member_def Let_def
    by (rule grows_final_step [OF a]) (rule b)
qed

lemma extractall_grows: "grows fs (final (extractall fs ms path))"
proof (induction ms arbitrary: fs)
  case Nil
  then show ?case by (simp add: grows_refl)
next
  case (Cons m ms)
  show ?case
    unfolding extractall.simps
    by (rule grows_final_step [OF extract_member_grows]) (rule Cons.IH)
qed

lemma unzip_odt_grows: "grows fs (final (unzip_odt self fs))"
proof -
  have a: "grows fs (final (if c then makedirs fs u else Done fs))" for c u
    by (simp add: makedirs_grows grows_refl)
  have b: "grows fs' (final (case zip_open_r fs' s of Inl e \<Rightarrow> Raised e fs'
             | Inr members \<Rightarrow> extractall fs' members t))" for fs' s t
    by (simp add: extractall_grows grows_refl split: sum.splits)
  show ?thesis
    unfolding unzip_odt_def
    by (rule grows_final_step [OF a]) (rule b)
qed

lemma inner_render_grows: "grows fs (final (inner_render jinja self fs file_name))"
proof -
  have b: "grows fs' (final (case new_content of
              Unencodable e \<Rightarrow> Raised e fs'
            | Encodable bytes \<Rightarrow> write_file fs' file_name (Raw bytes)))" for fs' new_content
    by (cases new_content) (simp_all add: write_file_grows grows_refl)
  have c: "grows fs (final (case write_file fs file_name (Raw []) of
              Raised e fs' \<Rightarrow> Raised e fs'
            | Done fs' \<Rightarrow>
               (case new_content of
                  Unencodable e \<Rightarrow> Raised e fs'
                | Encodable bytes \<Rightarrow> write_file fs' file_name (Raw bytes))))" for new_content
    by (rule grows_final_step [OF write_file_grows]) (rule b)
  have d: "grows fs (final (Raised e fs))" for e
    by (simp add: grows_refl)
  show ?thesis
    unfolding inner_render_def
    by (simp add: c d split: sum.splits del: final.simps)
qed

lemma render_grows: "grows fs (final (render jinja self fs))"
  unfolding render_def Let_def
  by (rule grows_final_step [OF inner_render_grows]) (rule inner_render_grows)

lemma zip_dir_grows: "grows fs (final (zip_dir fs dir_path z))"
proof (cases "os_path_isdir fs dir_path")
  case False
  then show ?thesis by (simp add: zip_dir_def Let_def grows_refl)
next
  case True
  obtain parentDir dirToZip where sp: "os_path_split dir_path = (parentDir, dirToZip)"
    by (cases "os_path_split dir_path")
  have b: "grows fs' (final (case zip_walk fs' zp parentDir dirToZip (walk_top fs' dir_path) [] of
              Inl e \<Rightarrow> Raised e fs' | Inr members \<Rightarrow> zip_close fs' zp members))" for fs' zp
    by (simp add: zip_close_def write_file_grows grows_refl split: sum.splits)
  have a: "grows fs (final (zip_open_w fs zp))" for zp
    by (simp add: zip_open_w_def write_file_grows)
  show ?thesis
    unfolding zip_dir_def Let_def using True sp
    by (simp del: final.simps) (rule grows_final_step [OF a b])
qed

lemma zip_odt_grows: "grows fs (final (zip_odt self fs))"
  by (simp add: zip_odt_def zip_dir_grows)

lemma nothing_removed_trans:
  "nothing_removed a b \<Longrightarrow> nothing_removed b c \<Longrightarrow> nothing_removed a c"
  by (simp add: nothing_removed_def)

lemma raised_keeps: "grows fs (final r) \<Longrightarrow> r = Raised e s \<Longrightarrow> nothing_removed fs s"
  by (auto intro: grows_nothing_removed)

lemma done_keeps: "grows fs (final r) \<Longrightarrow> r = Done s \<Longrightarrow> nothing_removed fs s"
  by (auto intro: grows_nothing_removed)

section \<open>Cleanup\<close>

lemma node_at_filter:
  "node_at (fs\<lparr>entries := filter (\<lambda>kn. P (fst kn)) (entries fs)\<rparr>) k =
     (if k = [] then Some Dir else if P k then node_at fs k else None)"
  by (simp add: node_at_def map_of_filter_fst)

lemma grows_filter: "grows (fs\<lparr>entries := filter (\<lambda>kn. P (fst kn)) (entries fs)\<rparr>) fs"
  unfolding grows_def node_at_filter [where fs = fs and P = P]
  by (auto simp: node_at_def split: if_splits)

lemma gone_after_removal:
  assumes r: "resolve fs p = Inr c" and g: "grows fs' fs" and n: "node_at fs' c = None"
  shows "\<not> os_path_exists fs' p"
proof
  assume "os_path_exists fs' p"
  then obtain r' where r': "resolve fs' p = Inr r'"
    by (auto simp: os_path_exists_def split: sum.splits)
  from resolve_grows [OF g r'] r have "r' = c" by simp
  with resolve_final [OF r'] n show False by simp
qed

lemma rmtree_Done:
  assumes "rmtree fs p = Done fs'"
  shows "\<not> os_path_exists fs' p" and "grows fs' fs"
proof -
  from assms obtain c where c: "resolve fs p = Inr c" "is_dir_at fs c"
    by (auto simp: rmtree_def split: sum.splits if_splits)
  define emptied
    where "emptied = fs\<lparr>entries := filter (\<lambda>kn. \<not> strict_prefix c (fst kn)) (entries fs)\<rparr>"
  from assms c obtain c' where r: "resolve emptied p = Inr c'" and c': "c' \<noteq> []"
    and fs': "fs' = emptied\<lparr>entries := filter (\<lambda>kn. fst kn \<noteq> c') (entries emptied)\<rparr>"
    unfolding rmtree_def emptied_def
    by (simp add: Let_def split: sum.splits if_splits)
  have g1: "grows emptied fs"
    unfolding emptied_def
    by (rule grows_filter [where fs = fs and P = "\<lambda>k. \<not> strict_prefix c k"])
  have g2: "grows fs' emptied"
    unfolding fs' by (rule grows_filter [where fs = emptied and P = "\<lambda>k. k \<noteq> c'"])
  show "grows fs' fs" using g2 g1 by (rule grows_trans)
  have "node_at fs' c' = None"
    unfolding fs' node_at_filter [where fs = emptied and P = "\<lambda>k. k \<noteq> c'"] using c' by simp
  with r g2 show "\<not> os_path_exists fs' p" by (rule gone_after_removal)
qed

lemma os_remove_Done:
  assumes "os_remove fs p = Done fs'"
  shows "\<not> os_path_exists fs' p" and "grows fs' fs"
proof -
  from assms obtain c where r: "resolve fs p = Inr c" and d: "\<not> is_dir_at fs c"
    and fs': "fs' = fs\<lparr>entries := filter (\<lambda>kn. fst kn \<noteq> c) (entries fs)\<rparr>"
    by (auto simp: os_remove_def split: sum.splits if_splits)
  from d have c: "c \<noteq> []" by (auto simp: is_dir_at_def node_at_def)
  show g: "grows fs' fs" unfolding fs' by (rule grows_filter [where fs = fs and P = "\<lambda>k. k \<noteq> c"])
  have "node_at fs' c = None"
    unfolding fs' node_at_filter [where fs = fs and P = "\<lambda>k. k \<noteq> c"] using c by simp
  with r g show "\<not> os_path_exists fs' p" by (rule gone_after_removal)
qed

lemma remove_tmp_Done:
  assumes "remove_tmp self fs = Done fs'"
  shows "\<not> os_path_exists fs' (tmp_dir self) \<and> \<not> os_path_exists fs' (tmp_odt self)"
proof -
  from assms obtain s where a: "rmtree fs (tmp_dir self) = Done s"
    and b: "os_remove s (tmp_odt self) = Done fs'"
    by (auto simp: remove_tmp_def split: outcome.splits)
  from rmtree_Done(1) [OF a] exists_grows [OF os_remove_Done(2) [OF b]]
  have "\<not> os_path_exists fs' (tmp_dir self)" by blast
  with os_remove_Done(1) [OF b] show ?thesis by simp
qed

lemma convert_Done:
  assumes "underscore_convert jinja self fs = (tr, Done fs')"
  shows "\<exists>s. remove_tmp self s = Done fs'"
  using assms
  by (auto simp: underscore_convert_def split: outcome.splits)

lemma init_sample:
  "Converter_init fs_odt Map.empty idle_backend ''/srv/report.odt'' ''/srv/out.pdf''
     [''id'' \<mapsto> PyStr ''42''] (Some (\<lambda>out inp. Inr r)) PyNone = Inr (sample_request r)"
  by (simp add: Converter_init_def sample_request_def dict_get_def dict_get_default_def
      set_lang_none os_path_exists_def resolve_def start_of_def fs_odt_def node_at_def
      is_dir_at_def)

lemma sample_tmp_dir: "tmp_dir (sample_request r) = ''/tmp/INKPY/42''"
  by (simp add: sample_request_def)

lemma sample_tmp_odt: "tmp_odt (sample_request r) = ''/tmp/INKPY/report.odt''"
  by (simp add: sample_request_def)

text \<open>
  Claim C3.  When \<^verbatim>\<open>convert\<close> returns, it has returned from \<^verbatim>\<open>remove_tmp\<close>: neither
  the working directory \<^verbatim>\<open>tmp_dir\<close> nor the intermediate archive \<^verbatim>\<open>tmp_odt\<close> exists
  in the file system it leaves.
\<close>

theorem success_removes_temporaries:
  assumes "convert jinja self fs = (tr, Done fs')"
  shows "\<not> os_path_exists fs' (tmp_dir self) \<and> \<not> os_path_exists fs' (tmp_odt self)"
proof -
  from assms have "underscore_convert jinja self fs = (tr, Done fs')"
    by (simp add: convert_def)
  then obtain s where "remove_tmp self s = Done fs'"
    using convert_Done by blast
  then show ?thesis by (rule remove_tmp_Done)
qed

theorem success_removes_temporaries_witness:
  "fst (convert plain_engine (sample_request pdf_renderer) fs_odt)
     = [UnzipOdt, Render, ZipOdt, ToPdf, RemoveTmp]
   \<and> os_path_exists (final (snd (convert plain_engine (sample_request pdf_renderer) fs_odt)))
       ''/srv/out.pdf''
   \<and> \<not> os_path_exists (final (snd (convert plain_engine (sample_request pdf_renderer) fs_odt)))
       ''/tmp/INKPY/42''
   \<and> \<not> os_path_exists (final (snd (convert plain_engine (sample_request pdf_renderer) fs_odt)))
       ''/tmp/INKPY/report.odt''"
proof -
  let ?s = "final (snd (convert plain_engine (sample_request pdf_renderer) fs_odt))"
  have c: "convert plain_engine (sample_request pdf_renderer) fs_odt
             = ([UnzipOdt, Render, ZipOdt, ToPdf, RemoveTmp], Done ?s)"
    by code_simp
  have f: "fst (convert plain_engine (sample_request pdf_renderer) fs_odt)
             = [UnzipOdt, Render, ZipOdt, ToPdf, RemoveTmp]"
    by code_simp
  have p: "os_path_exists ?s ''/srv/out.pdf''"
    by code_simp
  have r: "\<not> os_path_exists ?s ''/tmp/INKPY/42'' \<and> \<not> os_path_exists ?s ''/tmp/INKPY/report.odt''"
    using success_removes_temporaries [OF c] unfolding sample_tmp_dir sample_tmp_odt .
  show ?thesis using f p r by blast
qed

text \<open>
  Claim C4.  When extraction, rendering, repacking or conversion raises, \<^verbatim>\<open>convert\<close>
  raises the same error with the file system as that step left it, and the steps entered
  end with the failing one: \<^verbatim>\<open>remove_tmp\<close> is not among them.  Up to the call of the
  backend nothing is removed: every path that exists after extraction (the working
  directory) or after repacking (the intermediate archive) still exists when the run
  ends, or, for a failing conversion, when the backend is called.
\<close>

theorem failure_skips_cleanup:
  "(unzip_odt self fs = Raised e s' \<longrightarrow>
      convert jinja self fs = ([UnzipOdt], Raised e s') \<and> nothing_removed fs s')
 \<and> (unzip_odt self fs = Done s1 \<and> render jinja self s1 = Raised e s' \<longrightarrow>
      convert jinja self fs = ([UnzipOdt, Render], Raised e s') \<and> nothing_removed s1 s')
 \<and> (unzip_odt self fs = Done s1 \<and> render jinja self s1 = Done s2
      \<and> zip_odt self s2 = Raised e s' \<longrightarrow>
      convert jinja self fs = ([UnzipOdt, Render, ZipOdt], Raised e s')
      \<and> nothing_removed s1 s')
 \<and> (unzip_odt self fs = Done s1 \<and> render jinja self s1 = Done s2
      \<and> zip_odt self s2 = Done s3 \<and> to_pdf self s3 = Raised e s' \<longrightarrow>
      convert jinja self fs = ([UnzipOdt, Render, ZipOdt, ToPdf], Raised e s')
      \<and> nothing_removed s1 s3)"
proof (intro conjI impI)
  assume "unzip_odt self fs = Raised e s'"
  then show "convert jinja self fs = ([UnzipOdt], Raised e s')"
    by (simp add: convert_def underscore_convert_def)
next
  assume a: "unzip_odt self fs = Raised e s'"
  show "nothing_removed fs s'"
    using unzip_odt_grows [of fs self] a by (rule raised_keeps)
next
  assume "unzip_odt self fs = Done s1 \<and> render jinja self s1 = Raised e s'"
  then show "convert jinja self fs = ([UnzipOdt, Render], Raised e s')"
    by (simp add: convert_def underscore_convert_def)
next
  assume a: "unzip_odt self fs = Done s1 \<and> render jinja self s1 = Raised e s'"
  show "nothing_removed s1 s'"
    using render_grows [of s1 jinja self] a by (blast intro: raised_keeps)
next
  assume "unzip_odt self fs = Done s1 \<and> render jinja self s1 = Done s2
      \<and> zip_odt self s2 = Raised e s'"
  then show "convert jinja self fs = ([UnzipOdt, Render, ZipOdt], Raised e s')"
    by (simp add: convert_def underscore_convert_def)
next
  assume a: "unzip_odt self fs = Done s1 \<and> render jinja self s1 = Done s2
      \<and> zip_odt self s2 = Raised e s'"
  have "nothing_removed s1 s2"
    using render_grows [of s1 jinja self] a by (blast intro: done_keeps)
  moreover have "nothing_removed s2 s'"
    using zip_odt_grows [of s2 self] a by (blast intro: raised_keeps)
  ultimately show "nothing_removed s1 s'" by (rule nothing_removed_trans)
next
  assume "unzip_odt self fs = Done s1 \<and> render jinja self s1 = Done s2
      \<and> zip_odt self s2 = Done s3 \<and> to_pdf self s3 = Raised e s'"
  then show "convert jinja self fs = ([UnzipOdt, Render, ZipOdt, ToPdf], Raised e s')"
    by (simp add: convert_def underscore_convert_def)
next
  assume a: "unzip_odt self fs = Done s1 \<and> render jinja self s1 = Done s2
      \<and> zip_odt self s2 = Done s3 \<and> to_pdf self s3 = Raised e s'"
  have "nothing_removed s1 s2"
    using render_grows [of s1 jinja self] a by (blast intro: done_keeps)
  moreover have "nothing_removed s2 s3"
    using zip_odt_grows [of s2 self] a by (blast intro: done_keeps)
  ultimately show "nothing_removed s1 s3" by (rule nothing_removed_trans)
qed

theorem failure_skips_cleanup_witness:
  "convert plain_engine (sample_request failing_renderer) fs_not_zip
     = ([UnzipOdt], Raised BadZipFile (final (unzip_odt (sample_request failing_renderer) fs_not_zip)))
   \<and> os_path_exists (final (snd (convert plain_engine (sample_request failing_renderer) fs_no_styles)))
       ''/tmp/INKPY/42''
   \<and> fst (convert plain_engine (sample_request failing_renderer) fs_no_styles) = [UnzipOdt, Render]
   \<and> os_path_exists (final (snd (convert plain_engine (sample_request failing_renderer) fs_blocked)))
       ''/tmp/INKPY/42''
   \<and> fst (convert plain_engine (sample_request failing_renderer) fs_blocked)
       = [UnzipOdt, Render, ZipOdt]
   \<and> os_path_exists (final (snd (convert plain_engine (sample_request failing_renderer) fs_odt)))
       ''/tmp/INKPY/42''
   \<and> os_path_exists (final (snd (convert plain_engine (sample_request failing_renderer) fs_odt)))
       ''/tmp/INKPY/report.odt''
   \<and> fst (convert plain_engine (sample_request failing_renderer) fs_odt)
       = [UnzipOdt, Render, ZipOdt, ToPdf]"
proof -
  let ?c = "sample_request failing_renderer"
  note inst = failure_skips_cleanup [where self = ?c and jinja = plain_engine]
  \<comment> \<open>extraction fails\<close>
  have u1: "unzip_odt ?c fs_not_zip = Raised BadZipFile (final (unzip_odt ?c fs_not_zip))"
    by code_simp
  have A: "convert plain_engine ?c fs_not_zip
             = ([UnzipOdt], Raised BadZipFile (final (unzip_odt ?c fs_not_zip)))"
    using inst [where fs = fs_not_zip and e = BadZipFile
        and s' = "final (unzip_odt ?c fs_not_zip)"] u1
    by blast
  \<comment> \<open>rendering fails\<close>
  let ?a1 = "final (unzip_odt ?c fs_no_styles)"
  let ?a' = "final (render plain_engine ?c ?a1)"
  have u2: "unzip_odt ?c fs_no_styles = Done ?a1" by code_simp
  have r2: "render plain_engine ?c ?a1 = Raised FileNotFoundError ?a'" by code_simp
  have B: "convert plain_engine ?c fs_no_styles = ([UnzipOdt, Render], Raised FileNotFoundError ?a')
           \<and> nothing_removed ?a1 ?a'"
    using inst [where fs = fs_no_styles and e = FileNotFoundError and s' = ?a' and ?s1.0 = ?a1] u2 r2
    by blast
  have e2: "os_path_exists ?a1 ''/tmp/INKPY/42''" by code_simp
  from B e2 have B1: "os_path_exists (final (snd (convert plain_engine ?c fs_no_styles))) ''/tmp/INKPY/42''"
    by (simp add: nothing_removed_def)
  from B have B2: "fst (convert plain_engine ?c fs_no_styles) = [UnzipOdt, Render]" by simp
  \<comment> \<open>repacking fails\<close>
  let ?b1 = "final (unzip_odt ?c fs_blocked)"
  let ?b2 = "final (render plain_engine ?c ?b1)"
  let ?b' = "final (zip_odt ?c ?b2)"
  have u3: "unzip_odt ?c fs_blocked = Done ?b1" by code_simp
  have r3: "render plain_engine ?c ?b1 = Done ?b2" by code_simp
  have z3: "zip_odt ?c ?b2 = Raised IsADirectoryError ?b'" by code_simp
  have C: "convert plain_engine ?c fs_blocked
             = ([UnzipOdt, Render, ZipOdt], Raised IsADirectoryError ?b')
           \<and> nothing_removed ?b1 ?b'"
    using inst [where fs = fs_blocked and e = IsADirectoryError and s' = ?b' and ?s1.0 = ?b1
        and ?s2.0 = ?b2] u3 r3 z3
    by blast
  have e3: "os_path_exists ?b1 ''/tmp/INKPY/42''" by code_simp
  from C e3 have C1: "os_path_exists (final (snd (convert plain_engine ?c fs_blocked))) ''/tmp/INKPY/42''"
    by (simp add: nothing_removed_def)
  from C have C2: "fst (convert plain_engine ?c fs_blocked) = [UnzipOdt, Render, ZipOdt]" by simp
  \<comment> \<open>conversion fails\<close>
  let ?d1 = "final (unzip_odt ?c fs_odt)"
  let ?d2 = "final (render plain_engine ?c ?d1)"
  let ?d3 = "final (zip_odt ?c ?d2)"
  have u4: "unzip_odt ?c fs_odt = Done ?d1" by code_simp
  have r4: "render plain_engine ?c ?d1 = Done ?d2" by code_simp
  have z4: "zip_odt ?c ?d2 = Done ?d3" by code_simp
  have t4: "to_pdf ?c ?d3 = Raised (OtherError ''conversion failed'') ?d3"
    by (simp add: to_pdf_def sample_request_def failing_renderer_def)
  have D: "convert plain_engine ?c fs_odt
             = ([UnzipOdt, Render, ZipOdt, ToPdf], Raised (OtherError ''conversion failed'') ?d3)
           \<and> nothing_removed ?d1 ?d3"
    using inst [where fs = fs_odt and e = "OtherError ''conversion failed''" and s' = ?d3
        and ?s1.0 = ?d1 and ?s2.0 = ?d2 and ?s3.0 = ?d3] u4 r4 z4 t4
    by blast
  have e4: "os_path_exists ?d1 ''/tmp/INKPY/42''" by code_simp
  have o4: "os_path_exists ?d3 ''/tmp/INKPY/report.odt''" by code_simp
  from D e4 have D1: "os_path_exists (final (snd (convert plain_engine ?c fs_odt))) ''/tmp/INKPY/42''"
    by (simp add: nothing_removed_def)
  from D o4 have D2: "os_path_exists (final (snd (convert plain_engine ?c fs_odt))) ''/tmp/INKPY/report.odt''"
    by simp
  from D have D3: "fst (convert plain_engine ?c fs_odt) = [UnzipOdt, Render, ZipOdt, ToPdf]" by simp
  show ?thesis using A B1 B2 C1 C2 D1 D2 D3 by blast
qed

end
